theory Spec2Isabelle
  imports Complex_Main "HOL-Library.Multiset" "HOL-Library.Log_Nat"
begin

section \<open>Data model of the FPL data handler\<close>

text \<open>
  The JSON documents that \<^verbatim>\<open>fpl_data_handler.py\<close> reads are modelled as typed records
  holding the fields the handler uses. Python integers are \<open>int\<close>; Python floats are the
  values of IEEE 754 binary64 (\<open>pyfloat\<close>); numeric strings of the snapshot
  (\<^verbatim>\<open>form\<close>, \<^verbatim>\<open>selected_by_percent\<close>, \<^verbatim>\<open>ict_index\<close>) are held already
  parsed, with \<open>None\<close> for an empty (falsy) value. Field \<^verbatim>\<open>id\<close> is named after its
  record and \<^verbatim>\<open>round\<close> is \<open>round_no\<close>, since \<open>id\<close> and \<open>round\<close> are HOL constants.
\<close>

text \<open>
  A Python float: a finite binary64 value, held as the rational number it is exactly
  (\<open>Finite 0\<close> is \<^verbatim>\<open>0.0\<close>), the negative zero \<^verbatim>\<open>-0.0\<close>, or an infinity. No computation of
  the handler yields a NaN. Where the source has the integer \<^verbatim>\<open>0\<close> in place of a float
  (the \<^verbatim>\<open>else 0\<close> branches), the model has \<open>Finite 0\<close>: the two are equal in Python, and
  the table's columns are of type float.
\<close>

datatype pyfloat =
    Finite rat
  | Neg_Zero
  | Pos_Inf
  | Neg_Inf

record event =
  event_id :: int
  is_current :: bool

record team_rec =
  team_id :: int
  team_name :: string

record player =
  player_id :: int
  web_name :: string
  team :: int
  element_type :: int
  now_cost :: int
  form :: "pyfloat option"
  selected_by_percent :: pyfloat
  ict_index :: "pyfloat option"

record bootstrap =
  elements :: "player list"
  teams :: "team_rec list"
  events :: "event list"

record game =
  round_no :: int
  minutes :: int
  total_points :: int
  goals_scored :: int
  assists :: int
  bonus :: int

record pick =
  element :: int
  is_captain :: bool
  is_vice_captain :: bool
  multiplier :: int

text \<open>
  One row of the result table. The two columns whose names contain the window
  (\<^verbatim>\<open>Last_{weeks}_GW_Points\<close>, \<^verbatim>\<open>Rolling_{weeks}_Week_Avg\<close>) are the fields
  \<open>Last_N_GW_Points\<close> and \<open>Rolling_N_Week_Avg\<close>.
\<close>

record summary =
  Player :: string
  Player_ID :: int
  Team :: string
  Position :: string
  Cost :: string
  Cost_Numeric :: pyfloat
  Last_N_GW_Points :: int
  Rolling_N_Week_Avg :: pyfloat
  Points_Per_90 :: pyfloat
  Goals :: int
  Assists :: int
  Bonus_Points :: int
  Total_Minutes :: int
  Form :: pyfloat
  Selected_By :: pyfloat
  ICT_Index :: pyfloat

record results_doc =
  data :: "summary list"
  timestamp :: int
  gameweek :: int

text \<open>
  A decoded JSON document. \<open>History_Doc None\<close> is a non-empty dictionary without the key
  \<^verbatim>\<open>history\<close>; \<open>Empty_Doc\<close> stands for the falsy documents (\<^verbatim>\<open>{}\<close>, \<^verbatim>\<open>[]\<close>,
  \<^verbatim>\<open>null\<close>).
\<close>

datatype document =
    Bootstrap_Doc bootstrap
  | History_Doc "game list option"
  | Picks_Doc "pick list"
  | Results_Doc results_doc
  | Empty_Doc

datatype py_error =
    KeyError string
  | ZeroDivisionError

text \<open>The messages shown through streamlit (\<^verbatim>\<open>st.error\<close>, \<^verbatim>\<open>st.warning\<close>, \<^verbatim>\<open>st.success\<close>).\<close>

datatype signal =
    Warning_Could_Not_Load_Cache
  | Warning_Could_Not_Save_Cache
  | Error_Fetching_Bootstrap
  | Warning_Using_Stale_Cached_Data
  | Error_Fetching_Team
  | Error_Could_Not_Load_FPL_Data
  | Warning_No_Current_Gameweek
  | Success_Collection_Complete nat nat

text \<open>
  The world the handler runs in: the cache directory (a file has a modification time and,
  when it can be read as JSON, a document), the clock in microseconds, the remote API (for
  a URL and the time of the request: how long the request takes and the JSON answer, or
  \<open>None\<close> for a \<^verbatim>\<open>RequestException\<close>), the log of the requests made, the messages shown,
  and the files that cannot be written.
\<close>

record cache_file =
  mtime :: int
  content :: "document option"

record world =
  files :: "string \<rightharpoonup> cache_file"
  clock :: int
  remote :: "string \<Rightarrow> int \<Rightarrow> nat \<times> document option"
  requests :: "string list"
  signals :: "signal list"
  unwritable :: "string set"

section \<open>Cache store\<close>

definition base_url :: string where
  "base_url = ''https://fantasy.premierleague.com/api/''"

definition get_cache_file :: "string \<Rightarrow> string" where
  "get_cache_file cache_type = ''fpl_cache/'' @ cache_type @ ''.json''"

definition hours :: "int \<Rightarrow> int" where
  "hours h = h * 3600000000"

definition is_cache_valid :: "world \<Rightarrow> string \<Rightarrow> int \<Rightarrow> bool" where
  "is_cache_valid w cache_type max_age_hours =
     (case files w (get_cache_file cache_type) of
        None \<Rightarrow> False
      | Some f \<Rightarrow> clock w - mtime f < hours max_age_hours)"

definition show_signal :: "signal \<Rightarrow> world \<Rightarrow> world" where
  "show_signal s w = w\<lparr>signals := signals w @ [s]\<rparr>"

definition load_from_cache :: "world \<Rightarrow> string \<Rightarrow> document option \<times> world" where
  "load_from_cache w cache_type =
     (case files w (get_cache_file cache_type) of
        None \<Rightarrow> (None, w)
      | Some f \<Rightarrow>
          (case content f of
             None \<Rightarrow> (None, show_signal Warning_Could_Not_Load_Cache w)
           | Some d \<Rightarrow> (Some d, w)))"

definition save_to_cache :: "world \<Rightarrow> string \<Rightarrow> document \<Rightarrow> world" where
  "save_to_cache w cache_type d =
     (if get_cache_file cache_type \<in> unwritable w
      then show_signal Warning_Could_Not_Save_Cache w
      else w\<lparr>files := (files w)(get_cache_file cache_type \<mapsto>
                 \<lparr>mtime = clock w, content = Some d\<rparr>)\<rparr>)"

text \<open>Python truthiness of a loaded or fetched document (\<^verbatim>\<open>if cached_data:\<close>).\<close>

fun truthy :: "document option \<Rightarrow> bool" where
  "truthy None = False"
| "truthy (Some Empty_Doc) = False"
| "truthy (Some _) = True"

section \<open>Remote client\<close>

definition http_get :: "world \<Rightarrow> string \<Rightarrow> document option \<times> world" where
  "http_get w url =
     (case remote w url (clock w) of
        (delay, response) \<Rightarrow>
          (response, w\<lparr>clock := clock w + int delay, requests := requests w @ [url]\<rparr>))"

text \<open>Python's \<^verbatim>\<open>str\<close> of an integer, as the f-strings of the handler use it.\<close>

fun digits :: "nat \<Rightarrow> string" where
  "digits n =
     (if n < 10 then [''0123456789'' ! n]
      else digits (n div 10) @ [''0123456789'' ! (n mod 10)])"

definition str_int :: "int \<Rightarrow> string" where
  "str_int i = (if i < 0 then ''-'' @ digits (nat (- i)) else digits (nat i))"

definition fetch_bootstrap :: "world \<Rightarrow> document option \<times> world" where
  "fetch_bootstrap w =
     (case http_get w (base_url @ ''bootstrap-static/'') of
        (Some d, w1) \<Rightarrow> (Some d, save_to_cache w1 ''bootstrap'' d)
      | (None, w1) \<Rightarrow>
          (case load_from_cache (show_signal Error_Fetching_Bootstrap w1) ''bootstrap'' of
             (cached_data, w2) \<Rightarrow>
               if truthy cached_data
               then (cached_data, show_signal Warning_Using_Stale_Cached_Data w2)
               else (None, w2)))"

definition get_bootstrap_data :: "world \<Rightarrow> document option \<times> world" where
  "get_bootstrap_data w =
     (if is_cache_valid w ''bootstrap'' 6
      then (case load_from_cache w ''bootstrap'' of
              (cached_data, w1) \<Rightarrow>
                if truthy cached_data then (cached_data, w1) else fetch_bootstrap w1)
      else fetch_bootstrap w)"

definition player_cache_key :: "int \<Rightarrow> string" where
  "player_cache_key pid = ''player_'' @ str_int pid"

definition player_url :: "int \<Rightarrow> string" where
  "player_url pid = base_url @ ''element-summary/'' @ str_int pid @ ''/''"

definition fetch_player_history :: "world \<Rightarrow> string \<Rightarrow> int \<Rightarrow> document option \<times> world" where
  "fetch_player_history w cache_key pid =
     (case http_get w (player_url pid) of
        (Some d, w1) \<Rightarrow> (Some d, save_to_cache w1 cache_key d)
      | (None, w1) \<Rightarrow>
          (case load_from_cache w1 cache_key of
             (cached_data, w2) \<Rightarrow>
               if truthy cached_data then (cached_data, w2) else (None, w2)))"

definition get_player_history :: "world \<Rightarrow> int \<Rightarrow> document option \<times> world" where
  "get_player_history w pid =
     (let cache_key = player_cache_key pid in
      if is_cache_valid w cache_key 24
      then (case load_from_cache w cache_key of
              (cached_data, w1) \<Rightarrow>
                if truthy cached_data then (cached_data, w1)
                else fetch_player_history w1 cache_key pid)
      else fetch_player_history w cache_key pid)"

section \<open>Team picks\<close>

text \<open>The current gameweek: the \<^verbatim>\<open>id\<close> of the first event flagged \<^verbatim>\<open>is_current\<close>.\<close>

fun find_current_gw :: "event list \<Rightarrow> int option" where
  "find_current_gw [] = None"
| "find_current_gw (e # es) = (if is_current e then Some (event_id e) else find_current_gw es)"

text \<open>Truthiness of the optional gameweek (\<^verbatim>\<open>None\<close> and \<^verbatim>\<open>0\<close> are falsy).\<close>

fun gw_truthy :: "int option \<Rightarrow> bool" where
  "gw_truthy None = False"
| "gw_truthy (Some g) = (g \<noteq> 0)"

definition resolve_gameweek :: "world \<Rightarrow> int option \<Rightarrow> (py_error + int option) \<times> world" where
  "resolve_gameweek w gw =
     (if \<not> gw_truthy gw
      then (case get_bootstrap_data w of
              (bootstrap_data, w1) \<Rightarrow>
                if truthy bootstrap_data
                then (case bootstrap_data of
                        Some (Bootstrap_Doc b) \<Rightarrow>
                          (case find_current_gw (events b) of
                             Some g \<Rightarrow> (Inr (Some g), w1)
                           | None \<Rightarrow> (Inr gw, w1))
                      | _ \<Rightarrow> (Inl (KeyError ''events''), w1))
                else (Inr gw, w1))
      else (Inr gw, w))"

definition team_cache_key :: "int \<Rightarrow> int option \<Rightarrow> string" where
  "team_cache_key tid gw =
     ''team_'' @ str_int tid @ ''_''
       @ (case gw of
            None \<Rightarrow> ''current''
          | Some g \<Rightarrow> if g \<noteq> 0 then str_int g else ''current'')"

definition team_url :: "int \<Rightarrow> int \<Rightarrow> string" where
  "team_url tid g = base_url @ ''entry/'' @ str_int tid @ ''/event/'' @ str_int g @ ''/picks/''"

definition fetch_team_data ::
  "world \<Rightarrow> string \<Rightarrow> int \<Rightarrow> int option \<Rightarrow> (py_error + document option) \<times> world" where
  "fetch_team_data w cache_key tid gw =
     (case resolve_gameweek w gw of
        (Inl e, w1) \<Rightarrow> (Inl e, w1)
      | (Inr gw1, w1) \<Rightarrow>
          (case gw1 of
             None \<Rightarrow> (Inr None, w1)
           | Some g \<Rightarrow>
               if g \<noteq> 0
               then (case http_get w1 (team_url tid g) of
                       (Some team_data, w2) \<Rightarrow>
                         (Inr (Some team_data), save_to_cache w2 cache_key team_data)
                     | (None, w2) \<Rightarrow> (Inr None, show_signal Error_Fetching_Team w2))
               else (Inr None, w1)))"

definition get_team_data ::
  "world \<Rightarrow> int \<Rightarrow> int option \<Rightarrow> (py_error + document option) \<times> world" where
  "get_team_data w tid gw =
     (let cache_key = team_cache_key tid gw in
      if is_cache_valid w cache_key 2
      then (case load_from_cache w cache_key of
              (cached_data, w1) \<Rightarrow>
                if truthy cached_data then (Inr cached_data, w1)
                else fetch_team_data w1 cache_key tid gw)
      else fetch_team_data w cache_key tid gw)"

section \<open>Aggregator\<close>

text \<open>The dictionary comprehension over the teams: a later team with the same id wins.\<close>

definition teams_dict :: "team_rec list \<Rightarrow> (int \<rightharpoonup> string)" where
  "teams_dict ts = map_of (rev (map (\<lambda>t. (team_id t, team_name t)) ts))"

definition positions :: "int \<rightharpoonup> string" where
  "positions = [1 \<mapsto> ''Goalkeeper'', 2 \<mapsto> ''Defender'', 3 \<mapsto> ''Midfielder'', 4 \<mapsto> ''Forward'']"

text \<open>\<^verbatim>\<open>history_data.get('history', [])\<close> on a truthy document.\<close>

fun history_of :: "document \<Rightarrow> game list" where
  "history_of (History_Doc (Some h)) = h"
| "history_of _ = []"

definition qualifying :: "int \<Rightarrow> game list \<Rightarrow> game list" where
  "qualifying current_gw history =
     filter (\<lambda>g. round_no g \<le> current_gw \<and> minutes g > 0) history"

text \<open>
  \<^verbatim>\<open>recent_games.sort(key=lambda x: x['round'], reverse=True)\<close>: Python's sort is stable,
  also with \<^verbatim>\<open>reverse=True\<close>; so is \<open>sort_key\<close> on the negated key.
\<close>

definition recent_games :: "int \<Rightarrow> game list \<Rightarrow> game list" where
  "recent_games current_gw history = sort_key (\<lambda>g. - round_no g) (qualifying current_gw history)"

text \<open>The slice \<^verbatim>\<open>xs[:n]\<close>; a negative \<open>n\<close> counts from the end.\<close>

definition slice_to :: "int \<Rightarrow> 'a list \<Rightarrow> 'a list" where
  "slice_to n xs = (if 0 \<le> n then take (nat n) xs else take (length xs - nat (- n)) xs)"

definition last_n_games :: "int \<Rightarrow> int \<Rightarrow> game list \<Rightarrow> game list" where
  "last_n_games weeks current_gw history = slice_to weeks (recent_games current_gw history)"

subsection \<open>Float arithmetic\<close>

text \<open>Rounding of a rational to an integer, a tie going to the even neighbour.\<close>

definition round_half_even :: "rat \<Rightarrow> int" where
  "round_half_even x =
     (let f = \<lfloor>x\<rfloor>; d = x - of_int f in
      if d < 1 / 2 then f else if 1 / 2 < d then f + 1 else if even f then f else f + 1)"

text \<open>Integer powers of 2.\<close>

definition pow2 :: "int \<Rightarrow> rat" where
  "pow2 e = 2 powi e"

text \<open>
  For \<open>x > 0\<close>, the exponent \<open>e\<close> with \<open>pow2 e \<le> x < pow2 (e + 1)\<close>, found from the numbers
  of binary digits (\<open>bitlen\<close>, Python's \<^verbatim>\<open>int.bit_length\<close>) of numerator and denominator.
\<close>

definition ilog2 :: "rat \<Rightarrow> int" where
  "ilog2 x =
     (case quotient_of x of
        (a, b) \<Rightarrow>
          (let k = bitlen a - bitlen b in
           if pow2 k \<le> x then k else k - 1))"

text \<open>
  The binary64 value nearest to a rational, a tie going to the even significand: 53
  significant bits, and multiples of \<open>pow2 (- 1074)\<close> below \<open>pow2 (- 1022)\<close> (the subnormal
  numbers).
\<close>

definition round_binary64 :: "rat \<Rightarrow> rat" where
  "round_binary64 x =
     (if x = 0 then 0
      else (let e = max (ilog2 \<bar>x\<bar>) (- 1022); q = pow2 (e - 52) in
            of_int (round_half_even (x / q)) * q))"

text \<open>
  The float that an operation with the exact result \<open>x\<close> delivers: the rounded value, an
  infinity when this is beyond the largest float, and a zero with the sign of the exact
  result (\<open>neg\<close>) when it is zero.
\<close>

definition make_float :: "bool \<Rightarrow> rat \<Rightarrow> pyfloat" where
  "make_float neg x =
     (let r = round_binary64 x in
      if pow2 1024 \<le> \<bar>r\<bar> then (if r < 0 then Neg_Inf else Pos_Inf)
      else if r = 0 then (if neg then Neg_Zero else Finite 0)
      else Finite r)"

text \<open>The float of a decimal literal, such as \<^verbatim>\<open>12.86\<close>.\<close>

definition float_literal :: "rat \<Rightarrow> pyfloat" where
  "float_literal x = make_float (x < 0) x"

text \<open>
  The true division \<^verbatim>\<open>a / b\<close> of two integers, \<open>b\<close> not 0: Python delivers the correctly
  rounded quotient. For a quotient beyond the range of the floats Python raises
  \<^verbatim>\<open>OverflowError\<close>; integers of that size (more than 300 digits) are taken not to occur
  in the data, and the model has an infinity there.
\<close>

definition py_true_div :: "int \<Rightarrow> int \<Rightarrow> pyfloat" where
  "py_true_div a b = make_float ((a < 0) \<noteq> (b < 0)) (of_int a / of_int b)"

text \<open>The product \<^verbatim>\<open>x * 90\<close> of a float and the integer 90.\<close>

fun mul_90 :: "pyfloat \<Rightarrow> pyfloat" where
  "mul_90 (Finite x) = make_float (x < 0) (x * 90)"
| "mul_90 Neg_Zero = Neg_Zero"
| "mul_90 Pos_Inf = Pos_Inf"
| "mul_90 Neg_Inf = Neg_Inf"

text \<open>
  \<^verbatim>\<open>round(x, 2)\<close> on a float: the exact value of \<open>x\<close> is rounded to two decimal places, a
  tie going to the even neighbour, and the float nearest to that decimal is returned;
  zeros and infinities are returned as they are.
\<close>

fun round2 :: "pyfloat \<Rightarrow> pyfloat" where
  "round2 (Finite x) = make_float (x < 0) (of_int (round_half_even (x * 100)) / 100)"
| "round2 Neg_Zero = Neg_Zero"
| "round2 Pos_Inf = Pos_Inf"
| "round2 Neg_Inf = Neg_Inf"

text \<open>The format \<^verbatim>\<open>{x:.1f}\<close>: the exact value rounded to one decimal place.\<close>

fun format_1f :: "pyfloat \<Rightarrow> string" where
  "format_1f (Finite x) =
     (let n = nat (round_half_even (\<bar>x\<bar> * 10)) in
      (if x < 0 then ''-'' else []) @ digits (n div 10) @ ''.'' @ digits (n mod 10))"
| "format_1f Neg_Zero = ''-0.0''"
| "format_1f Pos_Inf = ''inf''"
| "format_1f Neg_Inf = ''-inf''"

text \<open>
  The display string of the cost, \<^verbatim>\<open>f"..{cost:.1f}m"\<close> with \<^verbatim>\<open>cost = now_cost / 10\<close>. The
  literal of the source file starts with the two characters U+00C2 and U+00A3.
\<close>

definition cost_string :: "int \<Rightarrow> string" where
  "cost_string c = [CHR 0xC2, CHR 0xA3] @ format_1f (py_true_div c 10) @ ''m''"

definition total :: "(game \<Rightarrow> int) \<Rightarrow> game list \<Rightarrow> int" where
  "total f games = sum_list (map f games)"

text \<open>
  \<^verbatim>\<open>ppm90 = (total_points / total_minutes * 90) if total_minutes > 0 else 0\<close>: a true
  division of the integers, then the product with 90.
\<close>

definition points_per_90 :: "int \<Rightarrow> int \<Rightarrow> pyfloat" where
  "points_per_90 points mins =
     (if mins > 0 then mul_90 (py_true_div points mins) else Finite 0)"

text \<open>
  The body of the player loop after the history has been obtained (a truthy document):
  \<open>Inr None\<close> when the player has too few qualifying games, an error when the division by
  the window raises.
\<close>

definition rolling_summary ::
  "int \<Rightarrow> int \<Rightarrow> player \<Rightarrow> string \<Rightarrow> string \<Rightarrow> document \<Rightarrow> py_error + summary option" where
  "rolling_summary weeks current_gw p tname pos history_data =
     (let history = history_of history_data in
      if weeks \<le> int (length (recent_games current_gw history))
      then (let last_n = last_n_games weeks current_gw history;
                points = total total_points last_n in
            if weeks = 0 then Inl ZeroDivisionError
            else
              (let rolling_avg = py_true_div points weeks;
                   mins = total minutes last_n;
                   ppm90 = points_per_90 points mins in
               Inr (Some \<lparr>Player = web_name p,
                          Player_ID = player_id p,
                          Team = tname,
                          Position = pos,
                          Cost = cost_string (now_cost p),
                          Cost_Numeric = py_true_div (now_cost p) 10,
                          Last_N_GW_Points = points,
                          Rolling_N_Week_Avg = round2 rolling_avg,
                          Points_Per_90 = round2 ppm90,
                          Goals = total goals_scored last_n,
                          Assists = total assists last_n,
                          Bonus_Points = total bonus last_n,
                          Total_Minutes = mins,
                          Form = (case form p of None \<Rightarrow> Finite 0 | Some x \<Rightarrow> x),
                          Selected_By = selected_by_percent p,
                          ICT_Index = (case ict_index p of None \<Rightarrow> Finite 0 | Some x \<Rightarrow> x)\<rparr>)))
      else Inr None)"

record loop_state =
  results :: "summary list"
  processed_count :: nat
  successful_count :: nat

text \<open>
  One iteration of the loop over the players. The progress display
  (\<^verbatim>\<open>use_progress\<close>) only draws and is left out.
\<close>

definition process_player ::
  "int \<Rightarrow> int \<Rightarrow> (int \<rightharpoonup> string) \<Rightarrow> world \<Rightarrow> loop_state \<Rightarrow> player
     \<Rightarrow> (py_error + loop_state) \<times> world" where
  "process_player weeks current_gw tdict w st p =
     (case tdict (team p) of
        None \<Rightarrow> (Inl (KeyError (str_int (team p))), w)
      | Some tname \<Rightarrow>
          (case positions (element_type p) of
             None \<Rightarrow> (Inl (KeyError (str_int (element_type p))), w)
           | Some pos \<Rightarrow>
               (case get_player_history w (player_id p) of
                  (history_data, w1) \<Rightarrow>
                    (let st1 = st\<lparr>processed_count := processed_count st + 1\<rparr> in
                     case history_data of
                       None \<Rightarrow> (Inr st1, w1)
                     | Some d \<Rightarrow>
                         if \<not> truthy (Some d) then (Inr st1, w1)
                         else (case rolling_summary weeks current_gw p tname pos d of
                                 Inl e \<Rightarrow> (Inl e, w1)
                               | Inr None \<Rightarrow> (Inr st1, w1)
                               | Inr (Some r) \<Rightarrow>
                                   (Inr (st1\<lparr>results := results st1 @ [r],
                                              successful_count := successful_count st1 + 1\<rparr>),
                                    w1))))))"

fun process_players ::
  "int \<Rightarrow> int \<Rightarrow> (int \<rightharpoonup> string) \<Rightarrow> world \<Rightarrow> loop_state \<Rightarrow> player list
     \<Rightarrow> (py_error + loop_state) \<times> world" where
  "process_players weeks current_gw tdict w st [] = (Inr st, w)"
| "process_players weeks current_gw tdict w st (p # ps) =
     (case process_player weeks current_gw tdict w st p of
        (Inl e, w1) \<Rightarrow> (Inl e, w1)
      | (Inr st1, w1) \<Rightarrow> process_players weeks current_gw tdict w1 st1 ps)"

definition results_key :: "int \<Rightarrow> string" where
  "results_key weeks = ''results_'' @ str_int weeks @ ''wk''"

text \<open>
  The end of the computation: the table is built from the collected rows, and, when it is
  not empty, sorted and cached. \<^verbatim>\<open>DataFrame.sort_values\<close> is library code; it is the
  parameter \<open>sort_values\<close> (called with the rolling average column, descending).
\<close>

definition finish ::
  "(summary list \<Rightarrow> summary list) \<Rightarrow> int \<Rightarrow> int \<Rightarrow> loop_state \<Rightarrow> world
     \<Rightarrow> summary list \<times> world" where
  "finish sort_values weeks current_gw st w =
     (let w1 = show_signal (Success_Collection_Complete (processed_count st)
                              (successful_count st)) w in
      if results st \<noteq> []
      then (let df = sort_values (results st) in
            (df, save_to_cache w1 (results_key weeks)
                   (Results_Doc \<lparr>data = df, timestamp = clock w1, gameweek = current_gw\<rparr>)))
      else ([], w1))"

definition calculate_rolling_averages ::
  "(summary list \<Rightarrow> summary list) \<Rightarrow> world \<Rightarrow> int \<Rightarrow> (py_error + summary list) \<times> world" where
  "calculate_rolling_averages sort_values w weeks =
     (case get_bootstrap_data w of
        (bootstrap_data, w1) \<Rightarrow>
          if \<not> truthy bootstrap_data
          then (Inr [], show_signal Error_Could_Not_Load_FPL_Data w1)
          else (case bootstrap_data of
                  Some (Bootstrap_Doc b) \<Rightarrow>
                    (case find_current_gw (events b) of
                       None \<Rightarrow> (Inr [], show_signal Warning_No_Current_Gameweek w1)
                     | Some current_gw \<Rightarrow>
                         if current_gw = 0
                         then (Inr [], show_signal Warning_No_Current_Gameweek w1)
                         else (case process_players weeks current_gw (teams_dict (teams b)) w1
                                      \<lparr>results = [], processed_count = 0, successful_count = 0\<rparr>
                                      (elements b) of
                                 (Inl e, w2) \<Rightarrow> (Inl e, w2)
                               | (Inr st, w2) \<Rightarrow>
                                   (case finish sort_values weeks current_gw st w2 of
                                      (df, w3) \<Rightarrow> (Inr df, w3))))
                | _ \<Rightarrow> (Inl (KeyError ''elements''), w1)))"

section \<open>Example data\<close>

text \<open>Small concrete inputs on which the theorems below are instantiated.\<close>

definition example_game :: "int \<Rightarrow> int \<Rightarrow> int \<Rightarrow> game" where
  "example_game r m pts =
     \<lparr>round_no = r, minutes = m, total_points = pts, goals_scored = 0, assists = 0, bonus = 0\<rparr>"

definition example_player :: "int \<Rightarrow> int \<Rightarrow> int \<Rightarrow> player" where
  "example_player pid tm pos =
     \<lparr>player_id = pid, web_name = ''Saka'', team = tm, element_type = pos, now_cost = 85,
      form = None, selected_by_percent = Finite 10, ict_index = None\<rparr>"

definition example_bootstrap :: "player list \<Rightarrow> bool \<Rightarrow> bootstrap" where
  "example_bootstrap ps cur =
     \<lparr>elements = ps, teams = [\<lparr>team_id = 1, team_name = ''Arsenal''\<rparr>],
      events = [\<lparr>event_id = 5, is_current = cur\<rparr>]\<rparr>"

text \<open>
  A world whose cache holds the given entries (key, modification time, document), whose
  clock shows \<open>now\<close>, and whose remote API fails every request.
\<close>

definition example_world :: "(string \<times> int \<times> document) list \<Rightarrow> int \<Rightarrow> world" where
  "example_world entries now =
     \<lparr>files = map_of (map (\<lambda>(k, t, d). (get_cache_file k, \<lparr>mtime = t, content = Some d\<rparr>))
                entries),
      clock = now,
      remote = (\<lambda>url t. (0, None)),
      requests = [],
      signals = [],
      unwritable = {}\<rparr>"

section \<open>What the player loop obtains and emits\<close>

text \<open>
  The history documents that the loop over the players obtains, in the order of the
  players: each call of \<open>get_player_history\<close> runs in the world the previous one left.
\<close>

fun fetched_histories :: "world \<Rightarrow> player list \<Rightarrow> document option list" where
  "fetched_histories w [] = []"
| "fetched_histories w (p # ps) =
     (case get_player_history w (player_id p) of
        (h, w1) \<Rightarrow> h # fetched_histories w1 ps)"

text \<open>The history entries of an obtained document; none when nothing was obtained.\<close>

definition obtained_history :: "document option \<Rightarrow> game list" where
  "obtained_history h = (case h of None \<Rightarrow> [] | Some d \<Rightarrow> history_of d)"

definition valid_lookups :: "(int \<rightharpoonup> string) \<Rightarrow> player \<Rightarrow> bool" where
  "valid_lookups tdict p \<longleftrightarrow> tdict (team p) \<noteq> None \<and> positions (element_type p) \<noteq> None"

text \<open>The rows that one player adds to the table: one row or none.\<close>

definition player_rows ::
  "int \<Rightarrow> int \<Rightarrow> (int \<rightharpoonup> string) \<Rightarrow> player \<Rightarrow> document option \<Rightarrow> summary list" where
  "player_rows weeks current_gw tdict p h =
     (case (tdict (team p), positions (element_type p), h) of
        (Some tname, Some pos, Some d) \<Rightarrow>
          if truthy (Some d)
          then (case rolling_summary weeks current_gw p tname pos d of
                  Inr (Some r) \<Rightarrow> [r]
                | _ \<Rightarrow> [])
          else []
      | _ \<Rightarrow> [])"

definition table_rows ::
  "int \<Rightarrow> int \<Rightarrow> (int \<rightharpoonup> string) \<Rightarrow> player list \<Rightarrow> document option list \<Rightarrow> summary list" where
  "table_rows weeks current_gw tdict ps hs =
     concat (map2 (player_rows weeks current_gw tdict) ps hs)"

text \<open>
  A world whose cache holds, fresh, a snapshot with the single player 7 of team 1 and that
  player's history; and the row of that player.
\<close>

definition example_history_world :: "game list \<Rightarrow> world" where
  "example_history_world games =
     example_world
       [(''bootstrap'', 0, Bootstrap_Doc (example_bootstrap [example_player 7 1 3] True)),
        (''player_7'', 0, History_Doc (Some games))] 0"

definition example_row :: "int \<Rightarrow> int \<Rightarrow> pyfloat \<Rightarrow> pyfloat \<Rightarrow> summary" where
  "example_row points mins avg ppm90 =
     \<lparr>Player = ''Saka'', Player_ID = 7, Team = ''Arsenal'', Position = ''Midfielder'',
      Cost = cost_string 85, Cost_Numeric = float_literal (85 / 10), Last_N_GW_Points = points,
      Rolling_N_Week_Avg = avg, Points_Per_90 = ppm90, Goals = 0, Assists = 0,
      Bonus_Points = 0, Total_Minutes = mins, Form = Finite 0, Selected_By = Finite 10,
      ICT_Index = Finite 0\<rparr>"

text \<open>
  A history of four entries: rounds 1 and 3 qualify for gameweek 5, round 2 has no minutes
  and round 9 is later than gameweek 5.
\<close>

definition example_games :: "game list" where
  "example_games =
     [example_game 1 90 2, example_game 3 7 1, example_game 2 0 5, example_game 9 90 6]"

text \<open>
  A world with two players in the fresh snapshot: the history of player 7 is cached, that
  of player 8 is not, and every request fails.
\<close>

definition example_two_players :: bootstrap where
  "example_two_players = example_bootstrap [example_player 8 1 2, example_player 7 1 3] True"

definition example_two_player_world :: world where
  "example_two_player_world =
     example_world
       [(''bootstrap'', 0, Bootstrap_Doc example_two_players),
        (''player_7'', 0, History_Doc (Some example_games))] 0"

section \<open>Fresh cache entries\<close>

text \<open>The document that \<open>load_from_cache\<close> returns for a key.\<close>

definition cached_doc :: "world \<Rightarrow> string \<Rightarrow> document option" where
  "cached_doc w k = (case files w (get_cache_file k) of None \<Rightarrow> None | Some f \<Rightarrow> content f)"

text \<open>
  A cache hit: the entry is within its time to live and loads as a non-empty document, so
  that the cache-first functions return it without a request.
\<close>

definition cache_hit :: "world \<Rightarrow> string \<Rightarrow> int \<Rightarrow> bool" where
  "cache_hit w k max_age_hours \<longleftrightarrow> is_cache_valid w k max_age_hours \<and> truthy (cached_doc w k)"

text \<open>
  The bootstrap entry and the history entry of every player of the cached snapshot are
  present and fresh.
\<close>

definition all_fresh :: "world \<Rightarrow> bool" where
  "all_fresh w \<longleftrightarrow>
     cache_hit w ''bootstrap'' 6
     \<and> (\<forall>b. cached_doc w ''bootstrap'' = Some (Bootstrap_Doc b)
            \<longrightarrow> (\<forall>p\<in>set (elements b). cache_hit w (player_cache_key (player_id p)) 24))"

section \<open>Evaluating the float arithmetic\<close>

lemma pow2_pos: "0 < pow2 e"
  by (simp add: pow2_def zero_less_power_int)

lemma pow2_add: "pow2 (a + b) = pow2 a * pow2 b"
  by (simp add: pow2_def power_int_add)

lemma pow2_mono: "a \<le> b \<Longrightarrow> pow2 a \<le> pow2 b"
  by (simp add: pow2_def power_int_increasing)

lemma pow2_strict_mono: "a < b \<Longrightarrow> pow2 a < pow2 b"
  by (simp add: pow2_def power_int_strict_increasing)

lemma pow2_less_cancel: "pow2 a < pow2 b \<Longrightarrow> a < b"
  using pow2_mono [of b a] by (cases "a < b") auto

lemma pow2_bitlen:
  assumes "0 < a"
  shows "pow2 (bitlen a - 1) \<le> of_int a" and "of_int a < pow2 (bitlen a)"
proof -
  from assms have "bitlen a \<noteq> 0"
    by (simp add: bitlen_eq_zero_iff)
  with bitlen_nonneg [of a] have pos: "0 < bitlen a"
    by simp
  from bitlen_bounds [OF assms]
  have lo: "2 ^ nat (bitlen a - 1) \<le> a" and hi: "a < 2 ^ nat (bitlen a)"
    by simp_all
  have "pow2 (bitlen a - 1) = of_int (2 ^ nat (bitlen a - 1))"
    using pos by (simp add: pow2_def power_int_def)
  also have "\<dots> \<le> of_int a"
    using lo by (simp only: of_int_le_iff)
  finally show "pow2 (bitlen a - 1) \<le> of_int a" .
  have "(of_int a :: rat) < of_int (2 ^ nat (bitlen a))"
    using hi by (simp only: of_int_less_iff)
  also have "\<dots> = pow2 (bitlen a)"
    using pos by (simp add: pow2_def power_int_def)
  finally show "of_int a < pow2 (bitlen a)" .
qed

text \<open>The exponent found by \<open>ilog2\<close> is the one that brackets \<open>x\<close>.\<close>

lemma ilog2_bounds:
  assumes "0 < x"
  shows "pow2 (ilog2 x) \<le> x \<and> x < pow2 (ilog2 x + 1)"
proof -
  obtain a b where q: "quotient_of x = (a, b)"
    by (cases "quotient_of x")
  from q have b: "0 < b"
    by (rule quotient_of_denom_pos)
  from q have x: "x = of_int a / of_int b"
    by (rule quotient_of_div)
  from assms b x have a: "0 < a"
    by (simp add: zero_less_divide_iff)
  define k where "k = bitlen a - bitlen b"
  note A = pow2_bitlen [OF a] and B = pow2_bitlen [OF b]
  have bpos: "(0 :: rat) < of_int b"
    using b by simp
  have "x * of_int b = of_int a"
    using x bpos by simp
  have "of_int a < pow2 (bitlen a)"
    by (rule A)
  also have "\<dots> = pow2 (k + 1) * pow2 (bitlen b - 1)"
    by (simp add: k_def pow2_add [symmetric])
  also have "\<dots> \<le> pow2 (k + 1) * of_int b"
    using B(1) pow2_pos [of "k + 1"] by (simp add: mult_le_cancel_left_pos)
  finally have "x * of_int b < pow2 (k + 1) * of_int b"
    using \<open>x * of_int b = of_int a\<close> by simp
  then have hi: "x < pow2 (k + 1)"
    using bpos by (simp add: mult_less_cancel_right_pos)
  have "pow2 (k - 1) * of_int b < pow2 (k - 1) * pow2 (bitlen b)"
    using B(2) pow2_pos [of "k - 1"] by (simp add: mult_less_cancel_left_pos)
  also have "\<dots> = pow2 (bitlen a - 1)"
    by (simp add: k_def pow2_add [symmetric])
  also have "\<dots> \<le> of_int a"
    by (rule A)
  finally have "pow2 (k - 1) * of_int b < x * of_int b"
    using \<open>x * of_int b = of_int a\<close> by simp
  then have lo: "pow2 (k - 1) < x"
    using bpos by (simp add: mult_less_cancel_right_pos)
  have il: "ilog2 x = (if pow2 k \<le> x then k else k - 1)"
    by (simp add: ilog2_def q k_def Let_def)
  show ?thesis
  proof (cases "pow2 k \<le> x")
    case True
    with il hi show ?thesis
      by simp
  next
    case False
    with il lo show ?thesis
      by simp
  qed
qed

lemma ilog2_unique:
  assumes "pow2 e \<le> x" and "x < pow2 (e + 1)"
  shows "ilog2 x = e"
proof -
  from assms(1) pow2_pos [of e] have "0 < x"
    by simp
  from ilog2_bounds [OF this]
  have lo: "pow2 (ilog2 x) \<le> x" and hi: "x < pow2 (ilog2 x + 1)"
    by simp_all
  from lo assms(2) have "pow2 (ilog2 x) < pow2 (e + 1)"
    by simp
  then have 1: "ilog2 x < e + 1"
    by (rule pow2_less_cancel)
  from assms(1) hi have "pow2 e < pow2 (ilog2 x + 1)"
    by simp
  then have 2: "e < ilog2 x + 1"
    by (rule pow2_less_cancel)
  from 1 2 show ?thesis
    by simp
qed

text \<open>Away from a tie, \<open>round_half_even\<close> is the nearest integer.\<close>

lemma round_half_even_unique:
  assumes "\<bar>x - of_int n\<bar> < 1 / 2"
  shows "round_half_even x = n"
proof (cases "of_int n \<le> x")
  case True
  with assms have "x < of_int n + 1 / 2"
    by simp
  with True have f: "\<lfloor>x\<rfloor> = n"
    by (intro floor_unique) simp_all
  with \<open>x < of_int n + 1 / 2\<close> show ?thesis
    by (simp add: round_half_even_def Let_def)
next
  case False
  with assms have lo: "of_int n - 1 / 2 < x"
    by simp
  with False have f: "\<lfloor>x\<rfloor> = n - 1"
    by (intro floor_unique) simp_all
  with lo show ?thesis
    by (simp add: round_half_even_def Let_def)
qed

lemma round_half_even_of_int: "round_half_even (of_int n) = n"
  by (rule round_half_even_unique) simp

lemma round_half_even_tie:
  assumes "x = of_int m + 1 / 2"
  shows "round_half_even x = (if even m then m else m + 1)"
proof -
  from assms have "\<lfloor>x\<rfloor> = m"
    by (intro floor_unique) simp_all
  with assms show ?thesis
    by (simp add: round_half_even_def Let_def)
qed

text \<open>
  The float delivered for an exact result \<open>x\<close> in the normal range: with \<open>e\<close> the exponent of
  \<open>x\<close> and \<open>n\<close> the rounding of \<open>x / pow2 (e - 52)\<close>, it is \<open>n * pow2 (e - 52)\<close>.
\<close>

lemma make_float_round:
  assumes "pow2 e \<le> \<bar>x\<bar>" and "\<bar>x\<bar> < pow2 (e + 1)" and "- 1022 \<le> e"
    and "round_half_even (x / pow2 (e - 52)) = n"
    and "n \<noteq> 0" and "\<bar>of_int n * pow2 (e - 52)\<bar> < pow2 1024"
  shows "make_float neg x = Finite (of_int n * pow2 (e - 52))"
proof -
  from assms(1) pow2_pos [of e] have "x \<noteq> 0"
    by auto
  have "ilog2 \<bar>x\<bar> = e"
    using assms(1,2) by (rule ilog2_unique)
  with assms(3) have "max (ilog2 \<bar>x\<bar>) (- 1022) = e"
    by simp
  with assms(4) have r: "round_binary64 x = of_int n * pow2 (e - 52)"
    using \<open>x \<noteq> 0\<close> by (simp add: round_binary64_def Let_def)
  have "of_int n * pow2 (e - 52) \<noteq> 0"
    using assms(5) pow2_pos [of "e - 52"] by simp
  with r assms(6) show ?thesis
    by (simp add: make_float_def Let_def)
qed

text \<open>Away from a tie, \<open>n\<close> is the integer nearest to \<open>x / pow2 (e - 52)\<close>.\<close>

lemma make_float_eq:
  assumes "pow2 e \<le> \<bar>x\<bar>" and "\<bar>x\<bar> < pow2 (e + 1)" and "- 1022 \<le> e"
    and "\<bar>x / pow2 (e - 52) - of_int n\<bar> < 1 / 2"
    and "n \<noteq> 0" and "\<bar>of_int n * pow2 (e - 52)\<bar> < pow2 1024"
  shows "make_float neg x = Finite (of_int n * pow2 (e - 52))"
  using assms(1-3) round_half_even_unique [OF assms(4)] assms(5,6) by (rule make_float_round)

text \<open>At a tie, it is the even neighbour.\<close>

lemma make_float_tie:
  assumes "pow2 e \<le> \<bar>x\<bar>" and "\<bar>x\<bar> < pow2 (e + 1)" and "- 1022 \<le> e"
    and "x / pow2 (e - 52) = of_int m + 1 / 2"
    and "n = (if even m then m else m + 1)"
    and "n \<noteq> 0" and "\<bar>of_int n * pow2 (e - 52)\<bar> < pow2 1024"
  shows "make_float neg x = Finite (of_int n * pow2 (e - 52))"
proof -
  from round_half_even_tie [OF assms(4)] assms(5)
  have "round_half_even (x / pow2 (e - 52)) = n"
    by simp
  with assms(1-3) show ?thesis
    using assms(6,7) by (rule make_float_round)
qed

lemma py_true_div_eq:
  assumes "pow2 e \<le> \<bar>of_int a / of_int b\<bar>" and "\<bar>of_int a / of_int b\<bar> < pow2 (e + 1)"
    and "- 1022 \<le> e"
    and "\<bar>of_int a / of_int b / pow2 (e - 52) - of_int n\<bar> < 1 / 2"
    and "n \<noteq> 0" and "\<bar>of_int n * pow2 (e - 52)\<bar> < pow2 1024"
  shows "py_true_div a b = Finite (of_int n * pow2 (e - 52))"
  unfolding py_true_div_def using assms by (rule make_float_eq)

lemma float_literal_eq:
  assumes "pow2 e \<le> \<bar>x\<bar>" and "\<bar>x\<bar> < pow2 (e + 1)" and "- 1022 \<le> e"
    and "\<bar>x / pow2 (e - 52) - of_int n\<bar> < 1 / 2"
    and "n \<noteq> 0" and "\<bar>of_int n * pow2 (e - 52)\<bar> < pow2 1024"
  shows "float_literal x = Finite (of_int n * pow2 (e - 52))"
  unfolding float_literal_def using assms by (rule make_float_eq)

lemma mul_90_eq:
  assumes "pow2 e \<le> \<bar>x * 90\<bar>" and "\<bar>x * 90\<bar> < pow2 (e + 1)" and "- 1022 \<le> e"
    and "\<bar>x * 90 / pow2 (e - 52) - of_int n\<bar> < 1 / 2"
    and "n \<noteq> 0" and "\<bar>of_int n * pow2 (e - 52)\<bar> < pow2 1024"
  shows "mul_90 (Finite x) = Finite (of_int n * pow2 (e - 52))"
  unfolding mul_90.simps using assms by (rule make_float_eq)

lemma mul_90_tie:
  assumes "pow2 e \<le> \<bar>x * 90\<bar>" and "\<bar>x * 90\<bar> < pow2 (e + 1)" and "- 1022 \<le> e"
    and "x * 90 / pow2 (e - 52) = of_int m + 1 / 2"
    and "n = (if even m then m else m + 1)"
    and "n \<noteq> 0" and "\<bar>of_int n * pow2 (e - 52)\<bar> < pow2 1024"
  shows "mul_90 (Finite x) = Finite (of_int n * pow2 (e - 52))"
  unfolding mul_90.simps using assms by (rule make_float_tie)

lemma round2_eq:
  assumes "\<bar>x * 100 - of_int k\<bar> < 1 / 2" and "0 \<le> x"
  shows "round2 (Finite x) = float_literal (of_int k / 100)"
proof -
  have r: "round_half_even (x * 100) = k"
    using assms(1) by (rule round_half_even_unique)
  from assms have "0 \<le> k"
    by (cases "0 \<le> k") auto
  then have "\<not> (of_int k / 100 < (0 :: rat))"
    by (simp add: divide_less_0_iff)
  with assms(2) r show ?thesis
    by (simp add: float_literal_def)
qed

text \<open>The values used in the examples.\<close>

lemma py_true_div_7_80:
  "py_true_div 7 80 = Finite (3152519739159347 / 36028797018963968)"
  using py_true_div_eq [of "- 4" 7 80 6305039478318694]
  by (simp add: pow2_def)

lemma mul_90_7_80:
  "mul_90 (Finite (3152519739159347 / 36028797018963968)) = Finite (8866461766385663 / 1125899906842624)"
  using mul_90_eq [of 2 "3152519739159347 / 36028797018963968" 8866461766385663]
  by (simp add: pow2_def)

lemma round2_7_80:
  "round2 (Finite (8866461766385663 / 1125899906842624)) = float_literal (787 / 100)"
  using round2_eq [of "8866461766385663 / 1125899906842624" 787]
  by simp

lemma mul_90_py_true_div_7_80:
  "mul_90 (py_true_div 7 80) = Finite (8866461766385663 / 1125899906842624)"
  by (simp only: py_true_div_7_80 mul_90_7_80)

lemma points_per_90_7_80:
  "round2 (points_per_90 7 80) = float_literal (787 / 100)"
proof -
  have "points_per_90 7 80 = mul_90 (py_true_div 7 80)"
    by (simp add: points_per_90_def)
  then show ?thesis
    by (simp only: mul_90_py_true_div_7_80 round2_7_80)
qed

lemma py_true_div_1_7:
  "py_true_div 1 7 = Finite (2573485501354569 / 18014398509481984)"
  using py_true_div_eq [of "- 3" 1 7 5146971002709138]
  by (simp add: pow2_def)

lemma mul_90_1_7:
  "mul_90 (Finite (2573485501354569 / 18014398509481984)) = Finite (7237927972559725 / 562949953421312)"
  using mul_90_eq [of 3 "2573485501354569 / 18014398509481984" 7237927972559725]
  by (simp add: pow2_def)

lemma round2_1_7:
  "round2 (Finite (7237927972559725 / 562949953421312)) = float_literal (1286 / 100)"
  using round2_eq [of "7237927972559725 / 562949953421312" 1286]
  by simp

lemma mul_90_py_true_div_1_7:
  "mul_90 (py_true_div 1 7) = Finite (7237927972559725 / 562949953421312)"
  by (simp only: py_true_div_1_7 mul_90_1_7)

lemma points_per_90_1_7:
  "round2 (points_per_90 1 7) = float_literal (1286 / 100)"
proof -
  have "points_per_90 1 7 = mul_90 (py_true_div 1 7)"
    by (simp add: points_per_90_def)
  then show ?thesis
    by (simp only: mul_90_py_true_div_1_7 round2_1_7)
qed

lemma py_true_div_3_97:
  "py_true_div 3 97 = Finite (278573172827041 / 9007199254740992)"
  using py_true_div_eq [of "- 6" 3 97 8914341530465312]
  by (simp add: pow2_def)

lemma mul_90_3_97:
  "mul_90 (Finite (278573172827041 / 9007199254740992)) = Finite (3133948194304211 / 1125899906842624)"
  using mul_90_tie [of 1 "278573172827041 / 9007199254740992" 6267896388608422 6267896388608422]
  by (simp add: pow2_def)

lemma round2_3_97:
  "round2 (Finite (3133948194304211 / 1125899906842624)) = float_literal (278 / 100)"
  using round2_eq [of "3133948194304211 / 1125899906842624" 278]
  by simp

lemma mul_90_py_true_div_3_97:
  "mul_90 (py_true_div 3 97) = Finite (3133948194304211 / 1125899906842624)"
  by (simp only: py_true_div_3_97 mul_90_3_97)

lemma points_per_90_3_97:
  "round2 (points_per_90 3 97) = float_literal (278 / 100)"
proof -
  have "points_per_90 3 97 = mul_90 (py_true_div 3 97)"
    by (simp add: points_per_90_def)
  then show ?thesis
    by (simp only: mul_90_py_true_div_3_97 round2_3_97)
qed

lemma py_true_div_7_1:
  "py_true_div 7 1 = Finite 7"
  using py_true_div_eq [of 2 7 1 7881299347898368]
  by (simp add: pow2_def)

lemma rolling_avg_7_1:
  "round2 (py_true_div 7 1) = float_literal 7"
  using round2_eq [of 7 700]
  by (simp add: py_true_div_7_1)

lemma py_true_div_1_1:
  "py_true_div 1 1 = Finite 1"
  using py_true_div_eq [of 0 1 1 4503599627370496]
  by (simp add: pow2_def)

lemma rolling_avg_1_1:
  "round2 (py_true_div 1 1) = float_literal 1"
  using round2_eq [of 1 100]
  by (simp add: py_true_div_1_1)

lemma py_true_div_3_2:
  "py_true_div 3 2 = Finite (3 / 2)"
  using py_true_div_eq [of 0 3 2 6755399441055744]
  by (simp add: pow2_def)

lemma rolling_avg_3_2:
  "round2 (py_true_div 3 2) = float_literal (3 / 2)"
  using round2_eq [of "3 / 2" 150]
  by (simp add: py_true_div_3_2)

lemma float_literal_787:
  "float_literal (787 / 100) = Finite (8860832266851451 / 1125899906842624)"
  using float_literal_eq [of 2 "787 / 100" 8860832266851451]
  by (simp add: pow2_def)

lemma float_literal_788:
  "float_literal (788 / 100) = Finite (8872091265919877 / 1125899906842624)"
  using float_literal_eq [of 2 "788 / 100" 8872091265919877]
  by (simp add: pow2_def)

lemma float_literal_1286:
  "float_literal (1286 / 100) = Finite (904942050124759 / 70368744177664)"
  using float_literal_eq [of 3 "1286 / 100" 7239536400998072]
  by (simp add: pow2_def)

lemma cost_numeric_85:
  "py_true_div 85 10 = float_literal (85 / 10)"
  by (simp add: py_true_div_def float_literal_def)

lemma round2_zero: "round2 (Finite 0) = Finite 0"
  using round_half_even_of_int [of 0] pow2_pos [of 1024]
  by (simp add: make_float_def round_binary64_def Let_def)

section \<open>Cache hits and cache files\<close>

lemma load_from_cache_hit:
  assumes "truthy (cached_doc w k)"
  shows "load_from_cache w k = (cached_doc w k, w)"
proof (cases "files w (get_cache_file k)")
  case None
  with assms show ?thesis by (simp add: cached_doc_def)
next
  case (Some f)
  with assms show ?thesis
    by (cases "content f") (simp_all add: cached_doc_def load_from_cache_def)
qed

lemma results_path_distinct:
  "get_cache_file ''bootstrap'' \<noteq> get_cache_file (results_key weeks)"
  "get_cache_file (player_cache_key pid) \<noteq> get_cache_file (results_key weeks)"
  by (simp_all add: get_cache_file_def results_key_def player_cache_key_def)

section \<open>The current gameweek\<close>

lemma find_current_gw_None: "find_current_gw es = None \<longleftrightarrow> (\<forall>e\<in>set es. \<not> is_current e)"
  by (induction es) auto

lemma find_current_gw_single:
  assumes "e \<in> set es" and "is_current e" and "\<forall>e'\<in>set es. is_current e' \<longrightarrow> e' = e"
  shows "find_current_gw es = Some (event_id e)"
  using assms
proof (induction es)
  case Nil
  then show ?case by simp
next
  case (Cons a es)
  show ?case
  proof (cases "is_current a")
    case True
    with Cons.prems(3) have "a = e" by simp
    with True show ?thesis by simp
  next
    case False
    with Cons.prems(1,2) have "e \<in> set es" by auto
    moreover from Cons.prems(3) have "\<forall>e'\<in>set es. is_current e' \<longrightarrow> e' = e" by simp
    ultimately have "find_current_gw es = Some (event_id e)"
      using Cons.IH Cons.prems(2) by blast
    with False show ?thesis by simp
  qed
qed

text \<open>
  C3. When no event of the obtained bootstrap snapshot is flagged \<^verbatim>\<open>is_current\<close>,
  \<open>calculate_rolling_averages\<close> stops before the player loop: it returns the empty table,
  the only thing it does after obtaining the snapshot is to show the warning that no
  current gameweek was found, so no player history is requested and no file is written.
\<close>

theorem no_current_event_stops_computation:
  assumes "get_bootstrap_data w = (Some (Bootstrap_Doc b), w1)"
    and "\<forall>e\<in>set (events b). \<not> is_current e"
  shows "calculate_rolling_averages sort_values w weeks
           = (Inr [], show_signal Warning_No_Current_Gameweek w1)
         \<and> requests (snd (calculate_rolling_averages sort_values w weeks)) = requests w1
         \<and> files (snd (calculate_rolling_averages sort_values w weeks)) = files w1
         \<and> signals (snd (calculate_rolling_averages sort_values w weeks))
             = signals w1 @ [Warning_No_Current_Gameweek]"
proof -
  from assms(2) have "find_current_gw (events b) = None"
    by (simp add: find_current_gw_None)
  with assms(1) have "calculate_rolling_averages sort_values w weeks
           = (Inr [], show_signal Warning_No_Current_Gameweek w1)"
    by (simp add: calculate_rolling_averages_def)
  then show ?thesis
    by (simp add: show_signal_def)
qed

lemma example_world_cached_bootstrap:
  "t < hours 6 \<Longrightarrow>
   get_bootstrap_data (example_world ((''bootstrap'', 0, Bootstrap_Doc b) # rest) t)
     = (Some (Bootstrap_Doc b), example_world ((''bootstrap'', 0, Bootstrap_Doc b) # rest) t)"
  by (simp add: get_bootstrap_data_def is_cache_valid_def load_from_cache_def example_world_def)

theorem no_current_event_stops_computation_witness:
  "calculate_rolling_averages rev
     (example_world [(''bootstrap'', 0, Bootstrap_Doc (example_bootstrap [example_player 7 1 3] False))] 0) 3
   = (Inr [], show_signal Warning_No_Current_Gameweek
       (example_world [(''bootstrap'', 0, Bootstrap_Doc (example_bootstrap [example_player 7 1 3] False))] 0))"
proof -
  let ?b = "example_bootstrap [example_player 7 1 3] False"
  let ?w = "example_world [(''bootstrap'', 0, Bootstrap_Doc ?b)] 0"
  have 1: "get_bootstrap_data ?w = (Some (Bootstrap_Doc ?b), ?w)"
    by (rule example_world_cached_bootstrap) (simp add: hours_def)
  have 2: "\<forall>e\<in>set (events ?b). \<not> is_current e"
    by (simp add: example_bootstrap_def)
  from no_current_event_stops_computation [OF 1 2, of rev 3] show ?thesis
    by simp
qed

section \<open>Obtaining the bootstrap snapshot\<close>

lemma fetch_bootstrap_fails_stale:
  assumes "snd (remote w (base_url @ ''bootstrap-static/'') (clock w)) = None"
    and "files w (get_cache_file ''bootstrap'') = Some f"
    and "content f = Some d"
    and "truthy (Some d)"
  shows "fst (fetch_bootstrap w) = Some d"
    and "signals (snd (fetch_bootstrap w))
           = signals w @ [Error_Fetching_Bootstrap, Warning_Using_Stale_Cached_Data]"
proof -
  from assms(1) obtain delay
    where "remote w (base_url @ ''bootstrap-static/'') (clock w) = (delay, None)"
    by (cases "remote w (base_url @ ''bootstrap-static/'') (clock w)") simp
  with assms(2-4) show "fst (fetch_bootstrap w) = Some d"
    and "signals (snd (fetch_bootstrap w))
           = signals w @ [Error_Fetching_Bootstrap, Warning_Using_Stale_Cached_Data]"
    by (simp_all add: fetch_bootstrap_def http_get_def load_from_cache_def show_signal_def)
qed

lemma fetch_bootstrap_fails_no_entry:
  assumes "snd (remote w (base_url @ ''bootstrap-static/'') (clock w)) = None"
    and "files w (get_cache_file ''bootstrap'') = None"
  shows "fst (fetch_bootstrap w) = None"
    and "signals (snd (fetch_bootstrap w)) = signals w @ [Error_Fetching_Bootstrap]"
proof -
  from assms(1) obtain delay
    where "remote w (base_url @ ''bootstrap-static/'') (clock w) = (delay, None)"
    by (cases "remote w (base_url @ ''bootstrap-static/'') (clock w)") simp
  with assms(2) show "fst (fetch_bootstrap w) = None"
    and "signals (snd (fetch_bootstrap w)) = signals w @ [Error_Fetching_Bootstrap]"
    by (simp_all add: fetch_bootstrap_def http_get_def load_from_cache_def show_signal_def)
qed

lemma no_data_empty_table:
  assumes "fst (get_bootstrap_data w) = None"
  shows "fst (calculate_rolling_averages sort_values w weeks) = Inr []"
  using assms
  by (cases "get_bootstrap_data w") (simp add: calculate_rolling_averages_def)

text \<open>
  C4. Suppose the request for the bootstrap snapshot fails. If the cache holds a stale
  entry (older than the six hours) that loads as a non-empty document, \<open>get_bootstrap_data\<close>
  returns that document after showing the fetch error and the "using stale cached data"
  warning. If the cache holds no entry, it returns nothing, and
  \<open>calculate_rolling_averages\<close> returns the empty table. (The function returns a value on
  every path: each \<^verbatim>\<open>RequestException\<close> is caught.)
\<close>

theorem bootstrap_fetch_failure_fallback:
  assumes "snd (remote w (base_url @ ''bootstrap-static/'') (clock w)) = None"
  shows "(\<forall>f d. files w (get_cache_file ''bootstrap'') = Some f \<and> content f = Some d
                  \<and> truthy (Some d) \<and> hours 6 \<le> clock w - mtime f
            \<longrightarrow> fst (get_bootstrap_data w) = Some d
                \<and> signals (snd (get_bootstrap_data w))
                    = signals w @ [Error_Fetching_Bootstrap, Warning_Using_Stale_Cached_Data])
       \<and> (files w (get_cache_file ''bootstrap'') = None
            \<longrightarrow> fst (get_bootstrap_data w) = None
                \<and> signals (snd (get_bootstrap_data w)) = signals w @ [Error_Fetching_Bootstrap]
                \<and> fst (calculate_rolling_averages sort_values w weeks) = Inr [])"
proof (intro conjI allI impI)
  fix f d
  assume h: "files w (get_cache_file ''bootstrap'') = Some f \<and> content f = Some d
               \<and> truthy (Some d) \<and> hours 6 \<le> clock w - mtime f"
  then have entry: "files w (get_cache_file ''bootstrap'') = Some f"
    and doc: "content f = Some d"
    and nonempty: "truthy (Some d)"
    and stale: "hours 6 \<le> clock w - mtime f"
    by blast+
  from entry stale have "\<not> is_cache_valid w ''bootstrap'' 6"
    by (simp add: is_cache_valid_def)
  then have eq: "get_bootstrap_data w = fetch_bootstrap w"
    by (simp add: get_bootstrap_data_def)
  show "fst (get_bootstrap_data w) = Some d"
    unfolding eq by (rule fetch_bootstrap_fails_stale(1) [OF assms entry doc nonempty])
  show "signals (snd (get_bootstrap_data w))
      = signals w @ [Error_Fetching_Bootstrap, Warning_Using_Stale_Cached_Data]"
    unfolding eq by (rule fetch_bootstrap_fails_stale(2) [OF assms entry doc nonempty])
next
  assume h: "files w (get_cache_file ''bootstrap'') = None"
  then have "\<not> is_cache_valid w ''bootstrap'' 6"
    by (simp add: is_cache_valid_def)
  then have eq: "get_bootstrap_data w = fetch_bootstrap w"
    by (simp add: get_bootstrap_data_def)
  show none: "fst (get_bootstrap_data w) = None"
    unfolding eq by (rule fetch_bootstrap_fails_no_entry(1) [OF assms h])
  show "signals (snd (get_bootstrap_data w)) = signals w @ [Error_Fetching_Bootstrap]"
    unfolding eq by (rule fetch_bootstrap_fails_no_entry(2) [OF assms h])
  from none show "fst (calculate_rolling_averages sort_values w weeks) = Inr []"
    by (rule no_data_empty_table)
qed

theorem bootstrap_fetch_failure_fallback_witness:
  "fst (get_bootstrap_data
          (example_world [(''bootstrap'', 0, Bootstrap_Doc (example_bootstrap [] True))] (hours 10)))
     = Some (Bootstrap_Doc (example_bootstrap [] True))
   \<and> signals (snd (get_bootstrap_data
          (example_world [(''bootstrap'', 0, Bootstrap_Doc (example_bootstrap [] True))] (hours 10))))
     = [Error_Fetching_Bootstrap, Warning_Using_Stale_Cached_Data]
   \<and> fst (get_bootstrap_data (example_world [] 0)) = None
   \<and> fst (calculate_rolling_averages rev (example_world [] 0) 3) = Inr []"
proof -
  let ?d = "Bootstrap_Doc (example_bootstrap [] True)"
  let ?w = "example_world [(''bootstrap'', 0, ?d)] (hours 10)"
  let ?f = "\<lparr>mtime = 0, content = Some ?d\<rparr>"
  have fails: "snd (remote ?w (base_url @ ''bootstrap-static/'') (clock ?w)) = None"
    by (simp add: example_world_def)
  have stale: "files ?w (get_cache_file ''bootstrap'') = Some ?f \<and> content ?f = Some ?d
                 \<and> truthy (Some ?d) \<and> hours 6 \<le> clock ?w - mtime ?f"
    by (simp add: example_world_def hours_def)
  have fails0: "snd (remote (example_world [] 0) (base_url @ ''bootstrap-static/'')
                       (clock (example_world [] 0))) = None"
    by (simp add: example_world_def)
  have none: "files (example_world [] 0) (get_cache_file ''bootstrap'') = None"
    by (simp add: example_world_def)
  have sig: "signals ?w = []"
    by (simp add: example_world_def)
  from bootstrap_fetch_failure_fallback [OF fails, of rev 3] stale
  have "fst (get_bootstrap_data ?w) = Some ?d
        \<and> signals (snd (get_bootstrap_data ?w))
            = signals ?w @ [Error_Fetching_Bootstrap, Warning_Using_Stale_Cached_Data]"
    by blast
  moreover from bootstrap_fetch_failure_fallback [OF fails0, of rev 3] none
  have "fst (get_bootstrap_data (example_world [] 0)) = None
        \<and> fst (calculate_rolling_averages rev (example_world [] 0) 3) = Inr []"
    by blast
  ultimately show ?thesis
    using sig by simp
qed

section \<open>The window of the most recent qualifying games\<close>

lemma length_recent_games: "length (recent_games cur h) = length (qualifying cur h)"
  by (simp add: recent_games_def)

lemma mset_recent_games: "mset (recent_games cur h) = mset (qualifying cur h)"
  by (simp add: recent_games_def)

lemma sorted_recent_games: "sorted (map (\<lambda>g. - round_no g) (recent_games cur h))"
  by (simp add: recent_games_def)

lemma last_n_games_take:
  "0 \<le> weeks \<Longrightarrow> last_n_games weeks cur h = take (nat weeks) (recent_games cur h)"
  by (simp add: last_n_games_def slice_to_def)

lemma length_last_n_games:
  assumes "0 \<le> weeks" and "weeks \<le> int (length (qualifying cur h))"
  shows "length (last_n_games weeks cur h) = nat weeks"
  using assms by (simp add: last_n_games_take length_recent_games)

lemma mset_last_n_games:
  assumes "0 \<le> weeks"
  shows "mset (last_n_games weeks cur h) + mset (drop (nat weeks) (recent_games cur h))
           = mset (qualifying cur h)"
proof -
  have "mset (take (nat weeks) (recent_games cur h)) + mset (drop (nat weeks) (recent_games cur h))
          = mset (recent_games cur h)"
    by (simp flip: mset_append)
  with assms show ?thesis
    by (simp add: last_n_games_take mset_recent_games)
qed

lemma last_n_games_most_recent:
  assumes "0 \<le> weeks"
    and "g \<in> set (drop (nat weeks) (recent_games cur h))"
    and "g' \<in> set (last_n_games weeks cur h)"
  shows "round_no g \<le> round_no g'"
proof -
  let ?r = "recent_games cur h"
  have "sorted (map (\<lambda>g. - round_no g) (take (nat weeks) ?r @ drop (nat weeks) ?r))"
    using sorted_recent_games [of cur h] by simp
  then have "\<forall>x\<in>set (take (nat weeks) ?r). \<forall>y\<in>set (drop (nat weeks) ?r).
               - round_no x \<le> - round_no y"
    unfolding map_append sorted_append by auto
  with assms show ?thesis
    by (auto simp: last_n_games_take)
qed

section \<open>One row of the table\<close>

lemma rolling_summary_emits:
  assumes "0 < weeks"
  shows "(\<exists>r. rolling_summary weeks cur p tname pos d = Inr (Some r))
           \<longleftrightarrow> weeks \<le> int (length (qualifying cur (history_of d)))"
  using assms by (simp add: rolling_summary_def Let_def length_recent_games)

lemma rolling_summary_skips:
  assumes "\<not> weeks \<le> int (length (qualifying cur (history_of d)))"
  shows "rolling_summary weeks cur p tname pos d = Inr None"
  using assms by (simp add: rolling_summary_def Let_def length_recent_games)

lemma rolling_summary_error:
  assumes "rolling_summary weeks cur p tname pos d = Inl e"
  shows "weeks = 0 \<and> e = ZeroDivisionError"
  using assms by (simp add: rolling_summary_def Let_def split: if_splits)

lemma rolling_summary_fields:
  assumes "rolling_summary weeks cur p tname pos d = Inr (Some r)"
  shows "Player_ID r = player_id p"
    and "Last_N_GW_Points r = total total_points (last_n_games weeks cur (history_of d))"
    and "Total_Minutes r = total minutes (last_n_games weeks cur (history_of d))"
    and "Goals r = total goals_scored (last_n_games weeks cur (history_of d))"
    and "Assists r = total assists (last_n_games weeks cur (history_of d))"
    and "Bonus_Points r = total bonus (last_n_games weeks cur (history_of d))"
    and "Rolling_N_Week_Avg r = round2 (py_true_div (Last_N_GW_Points r) weeks)"
    and "Points_Per_90 r = round2 (points_per_90 (Last_N_GW_Points r) (Total_Minutes r))"
  using assms by (auto simp: rolling_summary_def Let_def split: if_splits)

section \<open>The loop over the players\<close>

lemma process_player_Inr:
  assumes "process_player weeks cur tdict w st p = (Inr st1, w1)"
  shows "w1 = snd (get_player_history w (player_id p))"
    and "results st1
           = results st @ player_rows weeks cur tdict p (fst (get_player_history w (player_id p)))"
    and "processed_count st1 = processed_count st + 1"
    and "successful_count st1 = successful_count st
           + length (player_rows weeks cur tdict p (fst (get_player_history w (player_id p))))"
    and "valid_lookups tdict p"
  using assms
  by (auto simp: process_player_def player_rows_def valid_lookups_def Let_def
      split: option.splits sum.splits prod.splits if_splits)

lemma process_player_Inl:
  assumes "process_player weeks cur tdict w st p = (Inl e, w1)" and "weeks \<noteq> 0"
  shows "\<exists>k. e = KeyError k" and "w1 = w" and "\<not> valid_lookups tdict p"
  using assms
  by (auto simp: process_player_def valid_lookups_def Let_def
      dest: rolling_summary_error
      split: option.splits sum.splits prod.splits if_splits)

lemma process_player_invalid:
  assumes "\<not> valid_lookups tdict p"
  shows "\<exists>k. process_player weeks cur tdict w st p = (Inl (KeyError k), w)"
  using assms
  by (auto simp: process_player_def valid_lookups_def split: option.splits)

lemma process_player_total:
  assumes "valid_lookups tdict p" and "weeks \<noteq> 0"
  shows "\<exists>st1 w1. process_player weeks cur tdict w st p = (Inr st1, w1)"
proof (cases "process_player weeks cur tdict w st p")
  case (Pair r w1)
  show ?thesis
  proof (cases r)
    case (Inl e)
    with Pair assms process_player_Inl(3) [of weeks cur tdict w st p e w1]
    show ?thesis by simp
  next
    case (Inr st1)
    with Pair show ?thesis by simp
  qed
qed

lemma process_players_Inr:
  assumes "process_players weeks cur tdict w st ps = (Inr st', w')"
  shows "results st' = results st @ table_rows weeks cur tdict ps (fetched_histories w ps)
         \<and> processed_count st' = processed_count st + length ps
         \<and> successful_count st' = successful_count st
             + length (table_rows weeks cur tdict ps (fetched_histories w ps))
         \<and> (\<forall>p\<in>set ps. valid_lookups tdict p)"
  using assms
proof (induction ps arbitrary: w st)
  case Nil
  then show ?case by (simp add: table_rows_def)
next
  case (Cons p ps)
  obtain r w1 where step: "process_player weeks cur tdict w st p = (r, w1)"
    by (cases "process_player weeks cur tdict w st p")
  with Cons.prems obtain st1 where r: "r = Inr st1"
    by (cases r) auto
  with step Cons.prems have rest: "process_players weeks cur tdict w1 st1 ps = (Inr st', w')"
    by simp
  obtain h wh where get: "get_player_history w (player_id p) = (h, wh)"
    by (cases "get_player_history w (player_id p)")
  from process_player_Inr [OF step [unfolded r]] get
  have facts: "w1 = wh" "results st1 = results st @ player_rows weeks cur tdict p h"
    "processed_count st1 = processed_count st + 1"
    "successful_count st1 = successful_count st + length (player_rows weeks cur tdict p h)"
    "valid_lookups tdict p"
    by simp_all
  from Cons.IH [OF rest] facts get show ?case
    by (simp add: table_rows_def)
qed

lemma process_players_total:
  assumes "\<forall>p\<in>set ps. valid_lookups tdict p" and "weeks \<noteq> 0"
  shows "\<exists>st' w'. process_players weeks cur tdict w st ps = (Inr st', w')"
  using assms(1)
proof (induction ps arbitrary: w st)
  case Nil
  then show ?case by simp
next
  case (Cons p ps)
  then obtain st1 w1 where "process_player weeks cur tdict w st p = (Inr st1, w1)"
    using process_player_total [OF _ assms(2), of tdict p cur w st] by auto
  moreover from Cons obtain st' w' where "process_players weeks cur tdict w1 st1 ps = (Inr st', w')"
    by fastforce
  ultimately show ?case by simp
qed

lemma process_players_invalid:
  assumes "p \<in> set ps" and "\<not> valid_lookups tdict p" and "weeks \<noteq> 0"
  shows "\<exists>k w'. process_players weeks cur tdict w st ps = (Inl (KeyError k), w')"
  using assms(1)
proof (induction ps arbitrary: w st)
  case Nil
  then show ?case by simp
next
  case (Cons q ps)
  obtain r w1 where step: "process_player weeks cur tdict w st q = (r, w1)"
    by (cases "process_player weeks cur tdict w st q")
  show ?case
  proof (cases r)
    case (Inl e)
    with step assms(3) obtain k where "e = KeyError k"
      using process_player_Inl(1) by blast
    with Inl step show ?thesis by simp
  next
    case (Inr st1)
    with step have "valid_lookups tdict q"
      using process_player_Inr(5) by blast
    with assms(2) Cons.prems have "p \<in> set ps" by auto
    from Cons.IH [OF this] obtain k w'
      where "process_players weeks cur tdict w1 st1 ps = (Inl (KeyError k), w')"
      by blast
    with Inr step show ?thesis by simp
  qed
qed

section \<open>Lookups of team and position\<close>

lemma teams_dict_None: "teams_dict ts k = None \<longleftrightarrow> k \<notin> team_id ` set ts"
  by (simp add: teams_dict_def map_of_eq_None_iff image_image)

lemma positions_None: "positions k = None \<longleftrightarrow> k \<notin> {1, 2, 3, 4}"
  by (simp add: positions_def)

lemma valid_lookups_iff:
  "valid_lookups (teams_dict ts) p
     \<longleftrightarrow> team p \<in> team_id ` set ts \<and> element_type p \<in> {1, 2, 3, 4}"
  unfolding valid_lookups_def teams_dict_None positions_None by blast

text \<open>
  C10. In an iteration of the player loop the team id is looked up in the map built from
  the snapshot's teams and the \<^verbatim>\<open>element_type\<close> in the map of the four positions, before
  the player's history is requested. For a player whose team id is not among the
  snapshot's teams or whose \<^verbatim>\<open>element_type\<close> is not 1, 2, 3 or 4, the iteration raises
  \<^verbatim>\<open>KeyError\<close> and leaves the world as it found it (no request, no file written); and
  when the loop is reached (a snapshot with a current gameweek) with a window other than
  0, the whole computation ends in a \<^verbatim>\<open>KeyError\<close> instead of a table.
\<close>

theorem invalid_lookup_aborts_computation:
  assumes "get_bootstrap_data w = (Some (Bootstrap_Doc b), w1)"
    and "find_current_gw (events b) = Some cur"
    and "cur \<noteq> 0"
    and "weeks \<noteq> 0"
    and "p \<in> set (elements b)"
    and "team p \<notin> team_id ` set (teams b) \<or> element_type p \<notin> {1, 2, 3, 4}"
  shows "(\<exists>k w'. calculate_rolling_averages sort_values w weeks = (Inl (KeyError k), w'))
       \<and> (\<forall>w0 st. \<exists>k. process_player weeks cur (teams_dict (teams b)) w0 st p
                         = (Inl (KeyError k), w0))"
proof
  from assms(6) have bad: "\<not> valid_lookups (teams_dict (teams b)) p"
    by (simp add: valid_lookups_iff)
  from process_players_invalid [OF assms(5) bad assms(4)]
  obtain k w' where "process_players weeks cur (teams_dict (teams b)) w1
                       \<lparr>results = [], processed_count = 0, successful_count = 0\<rparr> (elements b)
                     = (Inl (KeyError k), w')"
    by blast
  with assms(1-3)
  have "calculate_rolling_averages sort_values w weeks = (Inl (KeyError k), w')"
    by (simp add: calculate_rolling_averages_def)
  then show "\<exists>k w'. calculate_rolling_averages sort_values w weeks = (Inl (KeyError k), w')"
    by blast
  from bad show "\<forall>w0 st. \<exists>k. process_player weeks cur (teams_dict (teams b)) w0 st p
                         = (Inl (KeyError k), w0)"
    by (simp add: process_player_invalid)
qed

theorem invalid_lookup_aborts_computation_witness:
  "\<exists>k w'. calculate_rolling_averages rev
     (example_world [(''bootstrap'', 0, Bootstrap_Doc (example_bootstrap [example_player 7 9 3] True))] 0) 3
     = (Inl (KeyError k), w')"
proof -
  let ?p = "example_player 7 9 3"
  let ?b = "example_bootstrap [?p] True"
  let ?w = "example_world [(''bootstrap'', 0, Bootstrap_Doc ?b)] 0"
  have 1: "get_bootstrap_data ?w = (Some (Bootstrap_Doc ?b), ?w)"
    by (rule example_world_cached_bootstrap) (simp add: hours_def)
  have 2: "find_current_gw (events ?b) = Some 5"
    by (simp add: example_bootstrap_def)
  have 3: "?p \<in> set (elements ?b)"
    by (simp add: example_bootstrap_def)
  have 4: "team ?p \<notin> team_id ` set (teams ?b) \<or> element_type ?p \<notin> {1, 2, 3, 4}"
    by (simp add: example_bootstrap_def example_player_def)
  from invalid_lookup_aborts_computation [OF 1 2 _ _ 3 4, of 3 rev] show ?thesis
    by simp
qed

section \<open>Team picks without an explicit gameweek\<close>

lemma get_team_data_cache_miss:
  assumes "\<not> is_cache_valid w (team_cache_key tid None) 2"
  shows "get_team_data w tid None
           = fetch_team_data w (team_cache_key tid None) tid None"
  using assms by (simp add: get_team_data_def)

lemma resolve_gameweek_current:
  assumes "get_bootstrap_data w = (Some (Bootstrap_Doc b), w1)"
  shows "resolve_gameweek w None = (Inr (find_current_gw (events b)), w1)"
  using assms by (simp add: resolve_gameweek_def split: option.splits)

text \<open>
  The cache comes first: with fresh cached picks under the key of the call, \<open>get_team_data\<close>
  returns them and leaves the world as it is; it obtains no snapshot, resolves no gameweek
  and makes no request.
\<close>

lemma fresh_cached_picks_returned:
  assumes "cache_hit w (team_cache_key tid gw) 2"
  shows "get_team_data w tid gw = (Inr (cached_doc w (team_cache_key tid gw)), w)"
  using assms by (simp add: cache_hit_def get_team_data_def Let_def load_from_cache_hit)

text \<open>
  C9, as amended. A call of \<open>get_team_data\<close> without a gameweek that finds no fresh cached picks
  (cache key \<^verbatim>\<open>team_{id}_current\<close>, two hours) obtains the bootstrap snapshot and takes the
  id of the event flagged \<^verbatim>\<open>is_current\<close>: with a single flagged event \<open>e\<close> (of non-zero
  id) the picks are requested for gameweek \<open>event_id e\<close>; with no flagged event the call
  returns \<^verbatim>\<open>None\<close> right after the snapshot was obtained, without a request for picks.
  (With fresh cached picks the call returns them and resolves nothing: lemma
  \<open>fresh_cached_picks_returned\<close> above.)
\<close>

theorem team_data_resolves_current_gameweek:
  assumes "\<not> is_cache_valid w (team_cache_key tid None) 2"
    and "get_bootstrap_data w = (Some (Bootstrap_Doc b), w1)"
  shows "((\<forall>e\<in>set (events b). \<not> is_current e)
            \<longrightarrow> get_team_data w tid None = (Inr None, w1))
       \<and> (\<forall>e. e \<in> set (events b) \<and> is_current e \<and> event_id e \<noteq> 0
                \<and> (\<forall>e'\<in>set (events b). is_current e' \<longrightarrow> e' = e)
            \<longrightarrow> get_team_data w tid None
                  = (case http_get w1 (team_url tid (event_id e)) of
                       (Some team_data, w2) \<Rightarrow>
                         (Inr (Some team_data),
                          save_to_cache w2 (team_cache_key tid None) team_data)
                     | (None, w2) \<Rightarrow> (Inr None, show_signal Error_Fetching_Team w2)))"
proof (intro conjI allI impI)
  assume "\<forall>e\<in>set (events b). \<not> is_current e"
  then have "find_current_gw (events b) = None"
    by (simp add: find_current_gw_None)
  with resolve_gameweek_current [OF assms(2)]
  have "fetch_team_data w (team_cache_key tid None) tid None = (Inr None, w1)"
    by (simp add: fetch_team_data_def)
  with get_team_data_cache_miss [OF assms(1)]
  show "get_team_data w tid None = (Inr None, w1)"
    by simp
next
  fix e
  assume h: "e \<in> set (events b) \<and> is_current e \<and> event_id e \<noteq> 0
               \<and> (\<forall>e'\<in>set (events b). is_current e' \<longrightarrow> e' = e)"
  then have "find_current_gw (events b) = Some (event_id e)"
    by (intro find_current_gw_single) blast+
  with resolve_gameweek_current [OF assms(2)] h
  have "fetch_team_data w (team_cache_key tid None) tid None
          = (case http_get w1 (team_url tid (event_id e)) of
                       (Some team_data, w2) \<Rightarrow>
                         (Inr (Some team_data),
                          save_to_cache w2 (team_cache_key tid None) team_data)
                     | (None, w2) \<Rightarrow> (Inr None, show_signal Error_Fetching_Team w2))"
    by (simp add: fetch_team_data_def)
  with get_team_data_cache_miss [OF assms(1)]
  show "get_team_data w tid None
          = (case http_get w1 (team_url tid (event_id e)) of
                       (Some team_data, w2) \<Rightarrow>
                         (Inr (Some team_data),
                          save_to_cache w2 (team_cache_key tid None) team_data)
                     | (None, w2) \<Rightarrow> (Inr None, show_signal Error_Fetching_Team w2))"
    by simp
qed

lemma example_world_team_key_no_entry:
  "\<not> is_cache_valid (example_world [(''bootstrap'', 0, d)] 0) (team_cache_key 1 None) 2"
  by (simp add: is_cache_valid_def example_world_def get_cache_file_def team_cache_key_def
      str_int_def)

theorem team_data_resolves_current_gameweek_witness:
  "get_team_data
     (example_world [(''bootstrap'', 0, Bootstrap_Doc (example_bootstrap [] False))] 0) 1 None
   = (Inr None, example_world [(''bootstrap'', 0, Bootstrap_Doc (example_bootstrap [] False))] 0)
   \<and> requests (snd (get_team_data
        (example_world [(''bootstrap'', 0, Bootstrap_Doc (example_bootstrap [] True))] 0) 1 None))
     = [team_url 1 5]"
proof -
  let ?b0 = "example_bootstrap [] False"
  let ?w0 = "example_world [(''bootstrap'', 0, Bootstrap_Doc ?b0)] 0"
  let ?b1 = "example_bootstrap [] True"
  let ?w1 = "example_world [(''bootstrap'', 0, Bootstrap_Doc ?b1)] 0"
  let ?e = "\<lparr>event_id = 5, is_current = True\<rparr>"
  have boot0: "get_bootstrap_data ?w0 = (Some (Bootstrap_Doc ?b0), ?w0)"
    by (rule example_world_cached_bootstrap) (simp add: hours_def)
  have boot1: "get_bootstrap_data ?w1 = (Some (Bootstrap_Doc ?b1), ?w1)"
    by (rule example_world_cached_bootstrap) (simp add: hours_def)
  have none: "\<forall>e\<in>set (events ?b0). \<not> is_current e"
    by (simp add: example_bootstrap_def)
  have single: "?e \<in> set (events ?b1) \<and> is_current ?e \<and> event_id ?e \<noteq> 0
                  \<and> (\<forall>e'\<in>set (events ?b1). is_current e' \<longrightarrow> e' = ?e)"
    by (simp add: example_bootstrap_def)
  from team_data_resolves_current_gameweek [OF example_world_team_key_no_entry boot0] none
  have "get_team_data ?w0 1 None = (Inr None, ?w0)"
    by blast
  moreover
  from team_data_resolves_current_gameweek [OF example_world_team_key_no_entry boot1] single
  have "get_team_data ?w1 1 None
          = (case http_get ?w1 (team_url 1 (event_id ?e)) of
               (Some team_data, w2) \<Rightarrow>
                 (Inr (Some team_data), save_to_cache w2 (team_cache_key 1 None) team_data)
             | (None, w2) \<Rightarrow> (Inr None, show_signal Error_Fetching_Team w2))"
    by blast
  then have "requests (snd (get_team_data ?w1 1 None)) = [team_url 1 5]"
    by (simp add: http_get_def example_world_def show_signal_def)
  ultimately show ?thesis
    by simp
qed

text \<open>
  With fresh cached picks under the key, the same call returns them, although the cached
  snapshot has no current event.
\<close>

theorem team_data_cached_picks_counterexample:
  "get_team_data
     (example_world [(''team_1_current'', 0, Picks_Doc []),
                     (''bootstrap'', 0, Bootstrap_Doc (example_bootstrap [] False))] 0) 1 None
   = (Inr (Some (Picks_Doc [])),
      example_world [(''team_1_current'', 0, Picks_Doc []),
                     (''bootstrap'', 0, Bootstrap_Doc (example_bootstrap [] False))] 0)
   \<and> fst (get_bootstrap_data
        (example_world [(''team_1_current'', 0, Picks_Doc []),
                        (''bootstrap'', 0, Bootstrap_Doc (example_bootstrap [] False))] 0))
     = Some (Bootstrap_Doc (example_bootstrap [] False))
   \<and> find_current_gw (events (example_bootstrap [] False)) = None"
  by (simp add: get_team_data_def team_cache_key_def str_int_def is_cache_valid_def
      load_from_cache_def get_bootstrap_data_def example_world_def hours_def get_cache_file_def
      example_bootstrap_def)

section \<open>Completed runs\<close>

lemma reached_loop:
  assumes "get_bootstrap_data w = (Some (Bootstrap_Doc b), w1)"
    and "find_current_gw (events b) = Some cur"
    and "cur \<noteq> 0"
  shows "calculate_rolling_averages sort_values w weeks
           = (case process_players weeks cur (teams_dict (teams b)) w1
                     \<lparr>results = [], processed_count = 0, successful_count = 0\<rparr> (elements b) of
                (Inl e, w2) \<Rightarrow> (Inl e, w2)
              | (Inr st, w2) \<Rightarrow>
                  (case finish sort_values weeks cur st w2 of (df, w3) \<Rightarrow> (Inr df, w3)))"
  using assms by (simp add: calculate_rolling_averages_def)

lemma nonempty_table_origin:
  assumes "fst (calculate_rolling_averages sort_values w weeks) = Inr table"
    and "table \<noteq> []"
  shows "\<exists>b w1 cur st w2.
    get_bootstrap_data w = (Some (Bootstrap_Doc b), w1)
    \<and> find_current_gw (events b) = Some cur
    \<and> cur \<noteq> 0
    \<and> process_players weeks cur (teams_dict (teams b)) w1
         \<lparr>results = [], processed_count = 0, successful_count = 0\<rparr> (elements b) = (Inr st, w2)
    \<and> results st \<noteq> []
    \<and> table = sort_values (results st)
    \<and> snd (calculate_rolling_averages sort_values w weeks)
         = save_to_cache
             (show_signal (Success_Collection_Complete (processed_count st) (successful_count st)) w2)
             (results_key weeks)
             (Results_Doc \<lparr>data = table, timestamp = clock w2, gameweek = cur\<rparr>)"
proof -
  obtain h w1 where boot: "get_bootstrap_data w = (h, w1)"
    by (cases "get_bootstrap_data w")
  with assms have "truthy h"
    by (auto simp: calculate_rolling_averages_def split: if_splits)
  with boot assms obtain b where h: "h = Some (Bootstrap_Doc b)"
    by (auto simp: calculate_rolling_averages_def split: option.splits document.splits)
  with boot assms obtain cur where cur: "find_current_gw (events b) = Some cur" "cur \<noteq> 0"
    by (cases "find_current_gw (events b)")
      (auto simp: calculate_rolling_averages_def split: if_splits)
  let ?loop = "process_players weeks cur (teams_dict (teams b)) w1
       \<lparr>results = [], processed_count = 0, successful_count = 0\<rparr> (elements b)"
  obtain r w2 where loop: "?loop = (r, w2)"
    by (cases ?loop)
  from boot h cur have run: "calculate_rolling_averages sort_values w weeks
           = (case ?loop of
                (Inl e, w2) \<Rightarrow> (Inl e, w2)
              | (Inr st, w2) \<Rightarrow>
                  (case finish sort_values weeks cur st w2 of (df, w3) \<Rightarrow> (Inr df, w3)))"
    by (simp add: reached_loop)
  with loop assms(1) obtain st where r: "r = Inr st"
    by (cases r) auto
  from run loop r assms have ne: "results st \<noteq> []"
    by (auto simp: finish_def Let_def split: if_splits)
  with run loop r assms(1) have tab: "table = sort_values (results st)"
    by (auto simp: finish_def Let_def)
  from run loop r ne tab
  have final: "snd (calculate_rolling_averages sort_values w weeks)
       = save_to_cache
           (show_signal (Success_Collection_Complete (processed_count st) (successful_count st)) w2)
           (results_key weeks)
           (Results_Doc \<lparr>data = table, timestamp = clock w2, gameweek = cur\<rparr>)"
    by (simp add: finish_def Let_def show_signal_def)
  from boot h have boot': "get_bootstrap_data w = (Some (Bootstrap_Doc b), w1)"
    by simp
  from loop r have loop': "?loop = (Inr st, w2)"
    by simp
  from boot' cur loop' ne tab final show ?thesis
    by (intro exI conjI)
qed

lemma player_rows_origin:
  assumes "r \<in> set (player_rows weeks cur tdict p h)"
  shows "\<exists>tname pos d. h = Some d \<and> rolling_summary weeks cur p tname pos d = Inr (Some r)"
proof (cases "tdict (team p)")
  case None
  with assms show ?thesis by (simp add: player_rows_def)
next
  case tn: (Some tname)
  show ?thesis
  proof (cases "positions (element_type p)")
    case None
    with assms tn show ?thesis by (simp add: player_rows_def)
  next
    case pos: (Some pos)
    show ?thesis
    proof (cases h)
      case None
      with assms tn pos show ?thesis by (simp add: player_rows_def)
    next
      case d: (Some d)
      have "rolling_summary weeks cur p tname pos d = Inr (Some r)"
      proof (cases "truthy (Some d)")
        case False
        with assms tn pos d show ?thesis by (simp add: player_rows_def)
      next
        case True
        show ?thesis
        proof (cases "rolling_summary weeks cur p tname pos d")
          case (Inl e)
          with assms tn pos d True show ?thesis by (simp add: player_rows_def)
        next
          case (Inr x)
          with assms tn pos d True show ?thesis by (cases x) (simp_all add: player_rows_def)
        qed
      qed
      with d show ?thesis by blast
    qed
  qed
qed

lemma table_rows_origin:
  assumes "r \<in> set (table_rows weeks cur tdict ps hs)"
  shows "\<exists>p tname pos d. rolling_summary weeks cur p tname pos d = Inr (Some r)"
proof -
  from assms obtain p h where "r \<in> set (player_rows weeks cur tdict p h)"
    by (auto simp: table_rows_def)
  then show ?thesis
    using player_rows_origin by blast
qed

lemma table_row_origin:
  assumes "fst (calculate_rolling_averages sort_values w weeks) = Inr table"
    and "\<forall>xs. set (sort_values xs) \<subseteq> set xs"
    and "r \<in> set table"
  shows "\<exists>cur p tname pos d. rolling_summary weeks cur p tname pos d = Inr (Some r)"
proof -
  from assms(3) have ne: "table \<noteq> []" by auto
  from nonempty_table_origin [OF assms(1) ne] obtain b :: bootstrap and w1 cur st w2 where
    loop: "process_players weeks cur (teams_dict (teams b)) w1
       \<lparr>results = [], processed_count = 0, successful_count = 0\<rparr> (elements b) = (Inr st, w2)"
    and tab: "table = sort_values (results st)"
    by blast
  from process_players_Inr [OF loop]
  have "results st = table_rows weeks cur (teams_dict (teams b)) (elements b)
                       (fetched_histories w1 (elements b))"
    by simp
  moreover from tab assms(2,3) have "r \<in> set (results st)"
    by auto
  ultimately show ?thesis
    using table_rows_origin by metis
qed

section \<open>Points per 90 minutes\<close>

lemma example_history_world_bootstrap:
  "get_bootstrap_data (example_history_world games)
     = (Some (Bootstrap_Doc (example_bootstrap [example_player 7 1 3] True)),
        example_history_world games)"
  unfolding example_history_world_def
  by (rule example_world_cached_bootstrap) (simp add: hours_def)

lemma example_history_world_player:
  "get_player_history (example_history_world games) 7
     = (Some (History_Doc (Some games)), example_history_world games)"
  by (simp add: get_player_history_def player_cache_key_def str_int_def is_cache_valid_def
      load_from_cache_def example_world_def example_history_world_def get_cache_file_def
      hours_def)

text \<open>One point in seven minutes: the record holds 12.86.\<close>

lemma example_run_one_game:
  "fst (calculate_rolling_averages rev (example_history_world [example_game 3 7 1]) 1)
     = Inr [example_row 1 7 (float_literal 1) (float_literal (1286 / 100))]"
  by (simp add: calculate_rolling_averages_def example_history_world_bootstrap
      example_history_world_player rolling_avg_1_1 points_per_90_1_7 cost_numeric_85
      example_bootstrap_def teams_dict_def process_player_def positions_def example_player_def
      rolling_summary_def Let_def recent_games_def qualifying_def last_n_games_def slice_to_def
      example_game_def total_def finish_def example_row_def)

text \<open>
  Seven points in eighty minutes: \<^verbatim>\<open>7 / 80 * 90\<close> is the float 7.874999999999999, just below
  the tie 7.875 of the exact quotient, and the record holds 7.87.
\<close>

lemma example_run_seven_points:
  "fst (calculate_rolling_averages rev (example_history_world [example_game 3 80 7]) 1)
     = Inr [example_row 7 80 (float_literal 7) (float_literal (787 / 100))]"
  by (simp add: calculate_rolling_averages_def example_history_world_bootstrap
      example_history_world_player rolling_avg_7_1 points_per_90_7_80 cost_numeric_85
      example_bootstrap_def teams_dict_def process_player_def positions_def example_player_def
      rolling_summary_def Let_def recent_games_def qualifying_def last_n_games_def slice_to_def
      example_game_def total_def finish_def example_row_def)

lemma seven_points_not_788:
  "round2 (points_per_90 7 80) \<noteq> float_literal (788 / 100)"
  unfolding points_per_90_7_80 float_literal_787 float_literal_788 by simp

text \<open>
  C6, as amended. Every row of the table of a completed run holds, as its points per 90
  minutes, what Python computes for \<^verbatim>\<open>round(total_points / total_minutes * 90, 2)\<close> in float
  arithmetic: the float quotient of the window's points by the window's minutes, times 90
  as a float, rounded to two decimal places; and exactly 0 when the window's minutes are
  not positive, so that nothing is divided by zero.
\<close>

theorem points_per_90_rounded:
  assumes "fst (calculate_rolling_averages sort_values w weeks) = Inr table"
    and "\<forall>xs. set (sort_values xs) \<subseteq> set xs"
    and "r \<in> set table"
  shows "Points_Per_90 r
           = (if 0 < Total_Minutes r
              then round2 (mul_90 (py_true_div (Last_N_GW_Points r) (Total_Minutes r)))
              else Finite 0)"
proof -
  from table_row_origin [OF assms] obtain cur p tname pos d
    where "rolling_summary weeks cur p tname pos d = Inr (Some r)"
    by blast
  then have r: "Points_Per_90 r = round2 (points_per_90 (Last_N_GW_Points r) (Total_Minutes r))"
    by (rule rolling_summary_fields)
  show ?thesis
  proof (cases "0 < Total_Minutes r")
    case True
    with r show ?thesis
      by (simp add: points_per_90_def)
  next
    case False
    then have "points_per_90 (Last_N_GW_Points r) (Total_Minutes r) = Finite 0"
      by (simp add: points_per_90_def)
    with r False show ?thesis
      by (simp only: round2_zero if_False)
  qed
qed

theorem points_per_90_rounded_witness:
  "Points_Per_90 (example_row 7 80 (float_literal 7) (float_literal (787 / 100)))
     = round2 (mul_90 (py_true_div 7 80))
   \<and> round2 (mul_90 (py_true_div 7 80)) = Finite (8860832266851451 / 1125899906842624)"
proof -
  let ?r = "example_row 7 80 (float_literal 7) (float_literal (787 / 100))"
  have 1: "\<forall>xs :: summary list. set (rev xs) \<subseteq> set xs"
    by simp
  have 2: "?r \<in> set [?r]"
    by simp
  from points_per_90_rounded [OF example_run_seven_points 1 2]
  have "Points_Per_90 ?r = round2 (mul_90 (py_true_div 7 80))"
    by (simp add: example_row_def)
  moreover have "round2 (mul_90 (py_true_div 7 80))
      = Finite (8860832266851451 / 1125899906842624)"
    unfolding mul_90_py_true_div_7_80 round2_7_80 float_literal_787 ..
  ultimately show ?thesis
    by (rule conjI)
qed

text \<open>
  The claim without the rounding fails: for one point in seven minutes the record holds
  12.86, which is neither the float \<^verbatim>\<open>1 / 7 * 90\<close> (12.857142857142856) nor the exact
  quotient 90/7.
\<close>

theorem points_per_90_unrounded_counterexample:
  "map_sum id (map Points_Per_90)
     (fst (calculate_rolling_averages rev (example_history_world [example_game 3 7 1]) 1))
     = Inr [float_literal (1286 / 100)]
   \<and> map_sum id (map (\<lambda>r. mul_90 (py_true_div (Last_N_GW_Points r) (Total_Minutes r))))
       (fst (calculate_rolling_averages rev (example_history_world [example_game 3 7 1]) 1))
     = Inr [Finite (7237927972559725 / 562949953421312)]
   \<and> float_literal (1286 / 100) \<noteq> Finite (7237927972559725 / 562949953421312)
   \<and> float_literal (1286 / 100) \<noteq> Finite (90 / 7)"
  unfolding example_run_one_game float_literal_1286
  by (simp add: example_row_def mul_90_py_true_div_1_7)

section \<open>Caching the result table\<close>

lemma unwritable_show_signal [simp]: "unwritable (show_signal s w) = unwritable w"
  by (simp add: show_signal_def)

lemma unwritable_save_to_cache [simp]: "unwritable (save_to_cache w k d) = unwritable w"
  by (simp add: save_to_cache_def)

lemma unwritable_load_from_cache [simp]: "unwritable (snd (load_from_cache w k)) = unwritable w"
  by (simp add: load_from_cache_def split: option.splits)

lemma unwritable_http_get [simp]: "unwritable (snd (http_get w url)) = unwritable w"
  by (simp add: http_get_def split: prod.splits)

lemma unwritable_fetch_bootstrap: "unwritable (snd (fetch_bootstrap w)) = unwritable w"
proof -
  obtain r w1 where get: "http_get w (base_url @ ''bootstrap-static/'') = (r, w1)"
    by (cases "http_get w (base_url @ ''bootstrap-static/'')")
  then have w1: "unwritable w1 = unwritable w"
    using unwritable_http_get [of w "base_url @ ''bootstrap-static/''"] by simp
  obtain c w2 where load: "load_from_cache (show_signal Error_Fetching_Bootstrap w1) ''bootstrap''
                             = (c, w2)"
    by (cases "load_from_cache (show_signal Error_Fetching_Bootstrap w1) ''bootstrap''")
  then have w2: "unwritable w2 = unwritable w1"
    using unwritable_load_from_cache [of "show_signal Error_Fetching_Bootstrap w1" "''bootstrap''"]
    by simp
  from get load w1 w2 show ?thesis
    by (cases r) (simp_all add: fetch_bootstrap_def)
qed

lemma unwritable_get_bootstrap_data: "unwritable (snd (get_bootstrap_data w)) = unwritable w"
proof -
  obtain c w1 where load: "load_from_cache w ''bootstrap'' = (c, w1)"
    by (cases "load_from_cache w ''bootstrap''")
  then have "unwritable w1 = unwritable w"
    using unwritable_load_from_cache [of w "''bootstrap''"] by simp
  with load show ?thesis
    by (simp add: get_bootstrap_data_def unwritable_fetch_bootstrap)
qed

lemma unwritable_fetch_player_history:
  "unwritable (snd (fetch_player_history w k pid)) = unwritable w"
proof -
  obtain r w1 where get: "http_get w (player_url pid) = (r, w1)"
    by (cases "http_get w (player_url pid)")
  then have w1: "unwritable w1 = unwritable w"
    using unwritable_http_get [of w "player_url pid"] by simp
  obtain c w2 where load: "load_from_cache w1 k = (c, w2)"
    by (cases "load_from_cache w1 k")
  then have w2: "unwritable w2 = unwritable w1"
    using unwritable_load_from_cache [of w1 k] by simp
  from get load w1 w2 show ?thesis
    by (cases r) (simp_all add: fetch_player_history_def)
qed

lemma unwritable_get_player_history:
  "unwritable (snd (get_player_history w pid)) = unwritable w"
proof -
  obtain c w1 where load: "load_from_cache w (player_cache_key pid) = (c, w1)"
    by (cases "load_from_cache w (player_cache_key pid)")
  then have "unwritable w1 = unwritable w"
    using unwritable_load_from_cache [of w "player_cache_key pid"] by simp
  with load show ?thesis
    by (simp add: get_player_history_def Let_def unwritable_fetch_player_history)
qed

lemma unwritable_process_players:
  assumes "process_players weeks cur tdict w st ps = (Inr st', w')"
  shows "unwritable w' = unwritable w"
  using assms
proof (induction ps arbitrary: w st)
  case Nil
  then show ?case by simp
next
  case (Cons p ps)
  obtain r w1 where step: "process_player weeks cur tdict w st p = (r, w1)"
    by (cases "process_player weeks cur tdict w st p")
  with Cons.prems obtain st1 where r: "r = Inr st1"
    by (cases r) auto
  from process_player_Inr(1) [OF step [unfolded r]]
  have "unwritable w1 = unwritable w"
    by (simp add: unwritable_get_player_history)
  moreover from step r Cons.prems have "process_players weeks cur tdict w1 st1 ps = (Inr st', w')"
    by simp
  ultimately show ?case
    using Cons.IH by simp
qed

text \<open>
  What a run leaves alone: the messages, the reading of the cache and the requests change
  no file, and \<open>save_to_cache\<close> changes only the file of its key.
\<close>

lemma files_load_from_cache: "files (snd (load_from_cache w k)) = files w"
  by (simp add: load_from_cache_def show_signal_def split: option.splits)

lemma files_http_get: "files (snd (http_get w url)) = files w"
  by (simp add: http_get_def split: prod.splits)

lemma files_save_to_cache:
  assumes "path \<noteq> get_cache_file k"
  shows "files (save_to_cache w k d) path = files w path"
  using assms by (simp add: save_to_cache_def show_signal_def)

lemma files_fetch_bootstrap:
  assumes "path \<noteq> get_cache_file ''bootstrap''"
  shows "files (snd (fetch_bootstrap w)) path = files w path"
proof -
  obtain r w1 where get: "http_get w (base_url @ ''bootstrap-static/'') = (r, w1)"
    by (cases "http_get w (base_url @ ''bootstrap-static/'')")
  then have w1: "files w1 = files w"
    using files_http_get [of w "base_url @ ''bootstrap-static/''"] by simp
  obtain c w2 where load: "load_from_cache (show_signal Error_Fetching_Bootstrap w1) ''bootstrap''
                             = (c, w2)"
    by (cases "load_from_cache (show_signal Error_Fetching_Bootstrap w1) ''bootstrap''")
  then have w2: "files w2 = files w1"
    using files_load_from_cache [of "show_signal Error_Fetching_Bootstrap w1" "''bootstrap''"]
    by (simp add: show_signal_def)
  from get load w1 w2 assms show ?thesis
    by (cases r) (simp_all add: fetch_bootstrap_def files_save_to_cache show_signal_def)
qed

lemma files_get_bootstrap_data:
  assumes "path \<noteq> get_cache_file ''bootstrap''"
  shows "files (snd (get_bootstrap_data w)) path = files w path"
proof -
  obtain c w1 where load: "load_from_cache w ''bootstrap'' = (c, w1)"
    by (cases "load_from_cache w ''bootstrap''")
  then have "files w1 = files w"
    using files_load_from_cache [of w "''bootstrap''"] by simp
  with load assms show ?thesis
    by (simp add: get_bootstrap_data_def files_fetch_bootstrap)
qed

lemma files_fetch_player_history:
  assumes "path \<noteq> get_cache_file k"
  shows "files (snd (fetch_player_history w k pid)) path = files w path"
proof -
  obtain r w1 where get: "http_get w (player_url pid) = (r, w1)"
    by (cases "http_get w (player_url pid)")
  then have w1: "files w1 = files w"
    using files_http_get [of w "player_url pid"] by simp
  obtain c w2 where load: "load_from_cache w1 k = (c, w2)"
    by (cases "load_from_cache w1 k")
  then have w2: "files w2 = files w1"
    using files_load_from_cache [of w1 k] by simp
  from get load w1 w2 assms show ?thesis
    by (cases r) (simp_all add: fetch_player_history_def files_save_to_cache)
qed

lemma files_get_player_history:
  assumes "path \<noteq> get_cache_file (player_cache_key pid)"
  shows "files (snd (get_player_history w pid)) path = files w path"
proof -
  obtain c w1 where load: "load_from_cache w (player_cache_key pid) = (c, w1)"
    by (cases "load_from_cache w (player_cache_key pid)")
  then have "files w1 = files w"
    using files_load_from_cache [of w "player_cache_key pid"] by simp
  with load assms show ?thesis
    by (simp add: get_player_history_def Let_def files_fetch_player_history)
qed

lemma files_process_players:
  assumes "process_players weeks cur tdict w st ps = (Inr st', w')"
    and "\<forall>pid. path \<noteq> get_cache_file (player_cache_key pid)"
  shows "files w' path = files w path"
  using assms(1)
proof (induction ps arbitrary: w st)
  case Nil
  then show ?case by simp
next
  case (Cons p ps)
  obtain r w1 where step: "process_player weeks cur tdict w st p = (r, w1)"
    by (cases "process_player weeks cur tdict w st p")
  with Cons.prems obtain st1 where r: "r = Inr st1"
    by (cases r) auto
  from process_player_Inr(1) [OF step [unfolded r]] assms(2)
  have "files w1 path = files w path"
    by (simp add: files_get_player_history)
  moreover from step r Cons.prems have "process_players weeks cur tdict w1 st1 ps = (Inr st', w')"
    by simp
  ultimately show ?case
    using Cons.IH by simp
qed

text \<open>
  A run that returns the empty table leaves the results file of its window as it was,
  whatever the cache held and whatever the requests did: nothing is persisted. (The sort
  is taken not to lose all rows of a table that has some.)
\<close>

lemma empty_table_writes_no_results:
  assumes "fst (calculate_rolling_averages sort_values w weeks) = Inr []"
    and "\<forall>xs. sort_values xs = [] \<longrightarrow> xs = []"
  shows "files (snd (calculate_rolling_averages sort_values w weeks))
             (get_cache_file (results_key weeks))
           = files w (get_cache_file (results_key weeks))"
proof -
  let ?path = "get_cache_file (results_key weeks)"
  let ?run = "calculate_rolling_averages sort_values w weeks"
  obtain h w1 where boot: "get_bootstrap_data w = (h, w1)"
    by (cases "get_bootstrap_data w")
  have "files (snd (get_bootstrap_data w)) ?path = files w ?path"
    using results_path_distinct(1) [of weeks] by (intro files_get_bootstrap_data) simp
  with boot have w1: "files w1 ?path = files w ?path"
    by simp
  show ?thesis
  proof (cases "truthy h")
    case False
    with boot w1 show ?thesis
      by (simp add: calculate_rolling_averages_def show_signal_def)
  next
    case True
    with boot assms(1) obtain b where h: "h = Some (Bootstrap_Doc b)"
      by (auto simp: calculate_rolling_averages_def split: option.splits document.splits)
    show ?thesis
    proof (cases "find_current_gw (events b)")
      case None
      with boot h w1 show ?thesis
        by (simp add: calculate_rolling_averages_def show_signal_def)
    next
      case (Some cur)
      show ?thesis
      proof (cases "cur = 0")
        case True
        with boot h Some w1 show ?thesis
          by (simp add: calculate_rolling_averages_def show_signal_def)
      next
        case False
        let ?loop = "process_players weeks cur (teams_dict (teams b)) w1
             \<lparr>results = [], processed_count = 0, successful_count = 0\<rparr> (elements b)"
        obtain r w2 where loop: "?loop = (r, w2)"
          by (cases ?loop)
        from boot h Some False have run: "?run
           = (case ?loop of
                (Inl e, w2) \<Rightarrow> (Inl e, w2)
              | (Inr st, w2) \<Rightarrow>
                  (case finish sort_values weeks cur st w2 of (df, w3) \<Rightarrow> (Inr df, w3)))"
          by (simp add: reached_loop)
        with loop assms(1) obtain st where r: "r = Inr st"
          by (cases r) auto
        have distinct: "\<forall>pid. ?path \<noteq> get_cache_file (player_cache_key pid)"
          using results_path_distinct(2) [of _ weeks] by metis
        from files_process_players [OF loop [unfolded r] distinct] w1
        have w2: "files w2 ?path = files w ?path"
          by simp
        have empty: "results st = []"
        proof (rule ccontr)
          assume ne: "results st \<noteq> []"
          with run loop r assms(1) have "sort_values (results st) = []"
            by (simp add: finish_def Let_def)
          with assms(2) ne show False
            by blast
        qed
        with run loop r w2 show ?thesis
          by (simp add: finish_def Let_def show_signal_def)
      qed
    qed
  qed
qed

text \<open>
  C7, as amended. After a completed run whose result table is not empty, the cache file of
  the key \<^verbatim>\<open>results_{weeks}wk\<close> (when it can be written) holds the sorted table, the time of
  the write as timestamp and the resolved current gameweek. A run whose table is empty
  writes no results entry (lemma \<open>empty_table_writes_no_results\<close> above).
\<close>

theorem nonempty_table_persisted:
  assumes "fst (calculate_rolling_averages sort_values w weeks) = Inr table"
    and "table \<noteq> []"
    and "get_cache_file (results_key weeks) \<notin> unwritable w"
  shows "\<exists>b w1 cur.
           get_bootstrap_data w = (Some (Bootstrap_Doc b), w1)
           \<and> find_current_gw (events b) = Some cur
           \<and> files (snd (calculate_rolling_averages sort_values w weeks))
                 (get_cache_file (results_key weeks))
               = Some \<lparr>mtime = clock (snd (calculate_rolling_averages sort_values w weeks)),
                       content = Some (Results_Doc
                         \<lparr>data = table,
                          timestamp = clock (snd (calculate_rolling_averages sort_values w weeks)),
                          gameweek = cur\<rparr>)\<rparr>"
proof -
  from nonempty_table_origin [OF assms(1,2)] obtain b :: bootstrap and w1 cur st w2 where
    boot: "get_bootstrap_data w = (Some (Bootstrap_Doc b), w1)"
    and cur: "find_current_gw (events b) = Some cur"
    and loop: "process_players weeks cur (teams_dict (teams b)) w1
         \<lparr>results = [], processed_count = 0, successful_count = 0\<rparr> (elements b) = (Inr st, w2)"
    and final: "snd (calculate_rolling_averages sort_values w weeks)
         = save_to_cache
             (show_signal (Success_Collection_Complete (processed_count st) (successful_count st)) w2)
             (results_key weeks)
             (Results_Doc \<lparr>data = table, timestamp = clock w2, gameweek = cur\<rparr>)"
    by blast
  from boot have "unwritable w1 = unwritable w"
    using unwritable_get_bootstrap_data [of w] by simp
  with unwritable_process_players [OF loop] assms(3)
  have "get_cache_file (results_key weeks) \<notin> unwritable w2"
    by simp
  then have "files (snd (calculate_rolling_averages sort_values w weeks))
                 (get_cache_file (results_key weeks))
               = Some \<lparr>mtime = clock (snd (calculate_rolling_averages sort_values w weeks)),
                       content = Some (Results_Doc
                         \<lparr>data = table,
                          timestamp = clock (snd (calculate_rolling_averages sort_values w weeks)),
                          gameweek = cur\<rparr>)\<rparr>"
    unfolding final by (simp add: save_to_cache_def show_signal_def)
  with boot cur show ?thesis
    by blast
qed

theorem nonempty_table_persisted_witness:
  "files (snd (calculate_rolling_averages rev (example_history_world [example_game 3 7 1]) 1))
     (get_cache_file (results_key 1))
   = Some \<lparr>mtime = 0,
           content = Some (Results_Doc
             \<lparr>data = [example_row 1 7 (float_literal 1) (float_literal (1286 / 100))],
              timestamp = 0, gameweek = 5\<rparr>)\<rparr>"
proof -
  let ?w = "example_history_world [example_game 3 7 1]"
  let ?run = "calculate_rolling_averages rev ?w 1"
  have 1: "[example_row 1 7 (float_literal 1) (float_literal (1286 / 100))] \<noteq> []"
    by simp
  have 2: "get_cache_file (results_key 1) \<notin> unwritable ?w"
    by (simp add: example_history_world_def example_world_def)
  from nonempty_table_persisted [OF example_run_one_game 1 2]
  obtain b :: bootstrap and w1 cur where
    boot: "get_bootstrap_data ?w = (Some (Bootstrap_Doc b), w1)"
    and cur: "find_current_gw (events b) = Some cur"
    and entry: "files (snd ?run) (get_cache_file (results_key 1))
       = Some \<lparr>mtime = clock (snd ?run),
               content = Some (Results_Doc
                 \<lparr>data = [example_row 1 7 (float_literal 1) (float_literal (1286 / 100))],
                  timestamp = clock (snd ?run), gameweek = cur\<rparr>)\<rparr>"
    by blast
  from boot have b: "b = example_bootstrap [example_player 7 1 3] True"
    by (simp add: example_history_world_bootstrap)
  with cur have "cur = 5"
    by (simp add: example_bootstrap_def)
  moreover have "clock (snd ?run) = clock ?w"
    by (simp add: calculate_rolling_averages_def example_history_world_bootstrap
        example_history_world_player example_bootstrap_def teams_dict_def
        process_player_def positions_def example_player_def rolling_summary_def Let_def
        length_recent_games qualifying_def example_game_def finish_def save_to_cache_def
        show_signal_def)
  moreover have "clock ?w = 0"
    by (simp add: example_history_world_def example_world_def)
  ultimately show ?thesis
    using entry by simp
qed

text \<open>
  A completed run over a snapshot without players returns the empty table and writes no
  results entry.
\<close>

theorem empty_table_not_persisted_counterexample:
  "fst (calculate_rolling_averages rev
          (example_world [(''bootstrap'', 0, Bootstrap_Doc (example_bootstrap [] True))] 0) 3)
     = Inr []
   \<and> files (snd (calculate_rolling_averages rev
          (example_world [(''bootstrap'', 0, Bootstrap_Doc (example_bootstrap [] True))] 0) 3))
       (get_cache_file (results_key 3)) = None
   \<and> signals (snd (calculate_rolling_averages rev
          (example_world [(''bootstrap'', 0, Bootstrap_Doc (example_bootstrap [] True))] 0) 3))
     = [Success_Collection_Complete 0 0]"
proof -
  let ?w = "example_world [(''bootstrap'', 0, Bootstrap_Doc (example_bootstrap [] True))] 0"
  have boot: "get_bootstrap_data ?w = (Some (Bootstrap_Doc (example_bootstrap [] True)), ?w)"
    by (rule example_world_cached_bootstrap) (simp add: hours_def)
  have cur: "find_current_gw (events (example_bootstrap [] True)) = Some 5"
    by (simp add: example_bootstrap_def)
  have none: "elements (example_bootstrap [] True) = []"
    by (simp add: example_bootstrap_def)
  have run: "calculate_rolling_averages rev ?w 3
               = (Inr [], show_signal (Success_Collection_Complete 0 0) ?w)"
    by (simp add: reached_loop [OF boot cur] none finish_def)
  show ?thesis
    unfolding run
    by (simp add: show_signal_def example_world_def get_cache_file_def results_key_def str_int_def)
qed

section \<open>Which players get a row\<close>

lemma qualifying_nonempty_truthy:
  assumes "0 < weeks" and "weeks \<le> int (length (qualifying cur (obtained_history h)))"
  obtains d where "h = Some d" and "truthy (Some d)" and "obtained_history h = history_of d"
proof -
  from assms have ne: "obtained_history h \<noteq> []"
    by (auto simp: qualifying_def)
  then obtain d where h: "h = Some d"
    by (cases h) (simp_all add: obtained_history_def)
  with ne have "history_of d \<noteq> []"
    by (simp add: obtained_history_def)
  then have "truthy (Some d)"
    by (cases d) simp_all
  with h that show thesis
    by (simp add: obtained_history_def)
qed

lemma player_rows_emits:
  assumes "0 < weeks" and "valid_lookups tdict p"
  shows "player_rows weeks cur tdict p h \<noteq> []
           \<longleftrightarrow> weeks \<le> int (length (qualifying cur (obtained_history h)))"
proof
  assume "player_rows weeks cur tdict p h \<noteq> []"
  then obtain r where "r \<in> set (player_rows weeks cur tdict p h)"
    by (cases "player_rows weeks cur tdict p h") auto
  then obtain tname pos d where h: "h = Some d"
    and row: "rolling_summary weeks cur p tname pos d = Inr (Some r)"
    using player_rows_origin by blast
  from row rolling_summary_emits [OF assms(1), of cur p tname pos d]
  have "weeks \<le> int (length (qualifying cur (history_of d)))"
    by blast
  with h show "weeks \<le> int (length (qualifying cur (obtained_history h)))"
    by (simp add: obtained_history_def)
next
  assume q: "weeks \<le> int (length (qualifying cur (obtained_history h)))"
  from qualifying_nonempty_truthy [OF assms(1) q] obtain d
    where h: "h = Some d" and t: "truthy (Some d)" and o: "obtained_history h = history_of d"
    by blast
  from assms(2) obtain tname pos
    where l: "tdict (team p) = Some tname" "positions (element_type p) = Some pos"
    by (auto simp: valid_lookups_def)
  from q o rolling_summary_emits [OF assms(1), of cur p tname pos d]
  obtain r where "rolling_summary weeks cur p tname pos d = Inr (Some r)"
    by auto
  with h t l show "player_rows weeks cur tdict p h \<noteq> []"
    by (simp add: player_rows_def)
qed

lemma player_rows_at_most_one: "length (player_rows weeks cur tdict p h) \<le> 1"
  by (cases h; cases "tdict (team p)"; cases "positions (element_type p)")
    (auto simp: player_rows_def split: sum.splits option.splits)

lemma player_rows_fields:
  assumes "r \<in> set (player_rows weeks cur tdict p h)"
  shows "Player_ID r = player_id p
       \<and> Last_N_GW_Points r = total total_points (last_n_games weeks cur (obtained_history h))
       \<and> Total_Minutes r = total minutes (last_n_games weeks cur (obtained_history h))
       \<and> Goals r = total goals_scored (last_n_games weeks cur (obtained_history h))
       \<and> Assists r = total assists (last_n_games weeks cur (obtained_history h))
       \<and> Bonus_Points r = total bonus (last_n_games weeks cur (obtained_history h))"
proof -
  from assms obtain tname pos d where h: "h = Some d"
    and row: "rolling_summary weeks cur p tname pos d = Inr (Some r)"
    using player_rows_origin by blast
  from h have "obtained_history h = history_of d"
    by (simp add: obtained_history_def)
  with rolling_summary_fields [OF row] show ?thesis
    by simp
qed

lemma window_most_recent:
  assumes "0 < weeks" and "weeks \<le> int (length (qualifying cur hist))"
  shows "length (last_n_games weeks cur hist) = nat weeks
       \<and> mset (last_n_games weeks cur hist) \<subseteq># mset (qualifying cur hist)
       \<and> (\<forall>g\<in>#mset (qualifying cur hist) - mset (last_n_games weeks cur hist).
            \<forall>g'\<in>set (last_n_games weeks cur hist). round_no g \<le> round_no g')"
proof -
  from assms have nn: "0 \<le> weeks" by simp
  let ?rest = "drop (nat weeks) (recent_games cur hist)"
  from mset_last_n_games [OF nn, of cur hist]
  have split: "mset (qualifying cur hist) = mset (last_n_games weeks cur hist) + mset ?rest"
    by simp
  then have rest: "mset (qualifying cur hist) - mset (last_n_games weeks cur hist) = mset ?rest"
    by simp
  have "\<forall>g\<in>set ?rest. \<forall>g'\<in>set (last_n_games weeks cur hist). round_no g \<le> round_no g'"
    using last_n_games_most_recent [OF nn] by blast
  with rest split length_last_n_games [OF nn assms(2)] show ?thesis
    by simp
qed

lemma completed_run_rows:
  assumes "get_bootstrap_data w = (Some (Bootstrap_Doc b), w1)"
    and "find_current_gw (events b) = Some cur"
    and "cur \<noteq> 0"
    and "fst (calculate_rolling_averages sort_values w weeks) = Inr table"
    and "\<forall>xs. mset (sort_values xs) = mset xs"
  shows "mset table = mset (table_rows weeks cur (teams_dict (teams b)) (elements b)
                             (fetched_histories w1 (elements b)))"
    and "\<forall>p\<in>set (elements b). valid_lookups (teams_dict (teams b)) p"
proof -
  let ?loop = "process_players weeks cur (teams_dict (teams b)) w1
       \<lparr>results = [], processed_count = 0, successful_count = 0\<rparr> (elements b)"
  obtain r w2 where loop: "?loop = (r, w2)"
    by (cases ?loop)
  with reached_loop [OF assms(1-3), of sort_values weeks] assms(4)
  obtain st where r: "r = Inr st"
    by (cases r) auto
  with loop reached_loop [OF assms(1-3), of sort_values weeks] assms(4)
  have "table = (if results st \<noteq> [] then sort_values (results st) else [])"
    by (auto simp: finish_def Let_def)
  with assms(5) have "mset table = mset (results st)"
    by simp
  moreover from process_players_Inr [OF loop [unfolded r]]
  have "results st = table_rows weeks cur (teams_dict (teams b)) (elements b)
                       (fetched_histories w1 (elements b))"
    and v: "\<forall>p\<in>set (elements b). valid_lookups (teams_dict (teams b)) p"
    by simp_all
  ultimately show "mset table = mset (table_rows weeks cur (teams_dict (teams b)) (elements b)
                             (fetched_histories w1 (elements b)))"
    by simp
  from v show "\<forall>p\<in>set (elements b). valid_lookups (teams_dict (teams b)) p" .
qed

text \<open>
  C1. Consider a completed run for a window \<open>weeks > 0\<close> over the snapshot \<open>b\<close> with current
  gameweek \<open>cur\<close>. Its table consists (up to the order that \<^verbatim>\<open>sort_values\<close> gives) of the
  rows of the players, where a player contributes a row, and then exactly one, if and only
  if the player's obtained history has at least \<open>weeks\<close> qualifying entries (minutes > 0,
  round up to \<open>cur\<close>). The sums of the row are taken over the window \<open>last_n_games\<close>, which
  has exactly \<open>weeks\<close> entries, all of them qualifying entries of the player, and no
  qualifying entry outside the window has a later round than one inside.
\<close>

theorem rolling_window_records:
  assumes "0 < weeks"
    and "get_bootstrap_data w = (Some (Bootstrap_Doc b), w1)"
    and "find_current_gw (events b) = Some cur"
    and "cur \<noteq> 0"
    and "fst (calculate_rolling_averages sort_values w weeks) = Inr table"
    and "\<forall>xs. mset (sort_values xs) = mset xs"
  shows "mset table = mset (table_rows weeks cur (teams_dict (teams b)) (elements b)
                             (fetched_histories w1 (elements b)))
       \<and> (\<forall>(p, h)\<in>set (zip (elements b) (fetched_histories w1 (elements b))).
            (player_rows weeks cur (teams_dict (teams b)) p h \<noteq> []
               \<longleftrightarrow> weeks \<le> int (length (qualifying cur (obtained_history h))))
            \<and> length (player_rows weeks cur (teams_dict (teams b)) p h) \<le> 1
            \<and> (\<forall>r\<in>set (player_rows weeks cur (teams_dict (teams b)) p h).
                  Player_ID r = player_id p
                  \<and> Last_N_GW_Points r
                      = total total_points (last_n_games weeks cur (obtained_history h))
                  \<and> Total_Minutes r = total minutes (last_n_games weeks cur (obtained_history h))
                  \<and> Goals r = total goals_scored (last_n_games weeks cur (obtained_history h))
                  \<and> Assists r = total assists (last_n_games weeks cur (obtained_history h))
                  \<and> Bonus_Points r = total bonus (last_n_games weeks cur (obtained_history h)))
            \<and> (weeks \<le> int (length (qualifying cur (obtained_history h)))
                 \<longrightarrow> length (last_n_games weeks cur (obtained_history h)) = nat weeks
                     \<and> mset (last_n_games weeks cur (obtained_history h))
                           \<subseteq># mset (qualifying cur (obtained_history h))
                     \<and> (\<forall>g\<in>#mset (qualifying cur (obtained_history h))
                                - mset (last_n_games weeks cur (obtained_history h)).
                          \<forall>g'\<in>set (last_n_games weeks cur (obtained_history h)).
                            round_no g \<le> round_no g')))"
proof (intro conjI ballI)
  show "mset table = mset (table_rows weeks cur (teams_dict (teams b)) (elements b)
                             (fetched_histories w1 (elements b)))"
    by (rule completed_run_rows(1) [OF assms(2-6)])
next
  fix x
  assume x: "x \<in> set (zip (elements b) (fetched_histories w1 (elements b)))"
  obtain p h where ph: "x = (p, h)"
    by (cases x)
  with x have "p \<in> set (elements b)"
    by (auto dest: set_zip_leftD)
  with completed_run_rows(2) [OF assms(2-6)] have v: "valid_lookups (teams_dict (teams b)) p"
    by blast
  show "case x of (p, h) \<Rightarrow>
            (player_rows weeks cur (teams_dict (teams b)) p h \<noteq> []
               \<longleftrightarrow> weeks \<le> int (length (qualifying cur (obtained_history h))))
            \<and> length (player_rows weeks cur (teams_dict (teams b)) p h) \<le> 1
            \<and> (\<forall>r\<in>set (player_rows weeks cur (teams_dict (teams b)) p h).
                  Player_ID r = player_id p
                  \<and> Last_N_GW_Points r
                      = total total_points (last_n_games weeks cur (obtained_history h))
                  \<and> Total_Minutes r = total minutes (last_n_games weeks cur (obtained_history h))
                  \<and> Goals r = total goals_scored (last_n_games weeks cur (obtained_history h))
                  \<and> Assists r = total assists (last_n_games weeks cur (obtained_history h))
                  \<and> Bonus_Points r = total bonus (last_n_games weeks cur (obtained_history h)))
            \<and> (weeks \<le> int (length (qualifying cur (obtained_history h)))
                 \<longrightarrow> length (last_n_games weeks cur (obtained_history h)) = nat weeks
                     \<and> mset (last_n_games weeks cur (obtained_history h))
                           \<subseteq># mset (qualifying cur (obtained_history h))
                     \<and> (\<forall>g\<in>#mset (qualifying cur (obtained_history h))
                                - mset (last_n_games weeks cur (obtained_history h)).
                          \<forall>g'\<in>set (last_n_games weeks cur (obtained_history h)).
                            round_no g \<le> round_no g'))"
    unfolding ph prod.case
  proof (intro conjI impI ballI)
    show "player_rows weeks cur (teams_dict (teams b)) p h \<noteq> []
               \<longleftrightarrow> weeks \<le> int (length (qualifying cur (obtained_history h)))"
      by (rule player_rows_emits [OF assms(1) v])
    show "length (player_rows weeks cur (teams_dict (teams b)) p h) \<le> 1"
      by (rule player_rows_at_most_one)
  next
    fix r
    assume r: "r \<in> set (player_rows weeks cur (teams_dict (teams b)) p h)"
    from player_rows_fields [OF r]
    show "Player_ID r = player_id p"
      and "Last_N_GW_Points r = total total_points (last_n_games weeks cur (obtained_history h))"
      and "Total_Minutes r = total minutes (last_n_games weeks cur (obtained_history h))"
      and "Goals r = total goals_scored (last_n_games weeks cur (obtained_history h))"
      and "Assists r = total assists (last_n_games weeks cur (obtained_history h))"
      and "Bonus_Points r = total bonus (last_n_games weeks cur (obtained_history h))"
      by simp_all
  next
    assume q: "weeks \<le> int (length (qualifying cur (obtained_history h)))"
    from window_most_recent [OF assms(1) q]
    show "length (last_n_games weeks cur (obtained_history h)) = nat weeks"
      and "mset (last_n_games weeks cur (obtained_history h))
             \<subseteq># mset (qualifying cur (obtained_history h))"
      by simp_all
    fix g g'
    assume "g \<in># mset (qualifying cur (obtained_history h))
                  - mset (last_n_games weeks cur (obtained_history h))"
      and "g' \<in> set (last_n_games weeks cur (obtained_history h))"
    with window_most_recent [OF assms(1) q] show "round_no g \<le> round_no g'"
      by blast
  qed
qed
lemma example_run_four_games:
  "fst (calculate_rolling_averages rev (example_history_world example_games) 2)
     = Inr [example_row 3 97 (float_literal (3 / 2)) (float_literal (278 / 100))]"
proof -
  have 3: "last_n_games 2 5 example_games = [example_game 3 7 1, example_game 1 90 2]"
    by (simp add: last_n_games_def slice_to_def recent_games_def qualifying_def
        example_games_def example_game_def)
  have 4: "length (recent_games 5 example_games) = 2"
    by (simp add: length_recent_games qualifying_def example_games_def example_game_def)
  show ?thesis
    by (simp add: calculate_rolling_averages_def example_history_world_bootstrap
        example_history_world_player 4 3 rolling_avg_3_2 points_per_90_3_97 cost_numeric_85
        example_bootstrap_def teams_dict_def process_player_def positions_def
        example_player_def rolling_summary_def Let_def example_game_def total_def finish_def
        example_row_def)
qed

theorem rolling_window_records_witness:
  "mset [example_row 3 97 (float_literal (3 / 2)) (float_literal (278 / 100))]
     = mset (table_rows 2 5 (teams_dict (teams (example_bootstrap [example_player 7 1 3] True)))
               (elements (example_bootstrap [example_player 7 1 3] True))
               (fetched_histories (example_history_world example_games)
                  (elements (example_bootstrap [example_player 7 1 3] True))))
   \<and> length (last_n_games 2 5 example_games) = 2
   \<and> mset (last_n_games 2 5 example_games) \<subseteq># mset (qualifying 5 example_games)"
proof -
  let ?b = "example_bootstrap [example_player 7 1 3] True"
  let ?w = "example_history_world example_games"
  let ?h = "Some (History_Doc (Some example_games))"
  have cur: "find_current_gw (events ?b) = Some 5"
    by (simp add: example_bootstrap_def)
  have perm: "\<forall>xs :: summary list. mset (rev xs) = mset xs"
    by simp
  note inst = rolling_window_records [OF _ example_history_world_bootstrap cur _
      example_run_four_games perm]
  have pair: "(example_player 7 1 3, ?h) \<in> set (zip (elements ?b) (fetched_histories ?w (elements ?b)))"
    by (simp add: example_bootstrap_def example_history_world_player example_player_def)
  have q: "(2::int) \<le> int (length (qualifying 5 (obtained_history ?h)))"
    by (simp add: obtained_history_def qualifying_def example_games_def example_game_def)
  have o: "obtained_history ?h = example_games"
    by (simp add: obtained_history_def)
  from inst have "mset [example_row 3 97 (float_literal (3 / 2)) (float_literal (278 / 100))]
     = mset (table_rows 2 5 (teams_dict (teams ?b)) (elements ?b)
               (fetched_histories ?w (elements ?b)))"
    by simp
  moreover from inst pair q
  have "length (last_n_games 2 5 (obtained_history ?h)) = nat 2
        \<and> mset (last_n_games 2 5 (obtained_history ?h))
              \<subseteq># mset (qualifying 5 (obtained_history ?h))"
    by fastforce
  ultimately show ?thesis
    by (simp add: o)
qed

section \<open>A player whose history cannot be obtained\<close>

lemma player_rows_no_history:
  assumes "\<not> truthy h"
  shows "player_rows weeks cur tdict p h = []"
  using assms
  by (cases h; cases "tdict (team p)"; cases "positions (element_type p)")
    (simp_all add: player_rows_def)

lemma process_player_no_history:
  assumes "valid_lookups tdict p"
    and "\<not> truthy (fst (get_player_history w (player_id p)))"
  shows "process_player weeks cur tdict w st p
           = (Inr (st\<lparr>processed_count := processed_count st + 1\<rparr>),
              snd (get_player_history w (player_id p)))"
proof -
  obtain h w1 where get: "get_player_history w (player_id p) = (h, w1)"
    by (cases "get_player_history w (player_id p)")
  from assms(1) obtain tname pos
    where "tdict (team p) = Some tname" "positions (element_type p) = Some pos"
    by (auto simp: valid_lookups_def)
  with get assms(2) show ?thesis
    by (cases h) (simp_all add: process_player_def)
qed

text \<open>
  C5. In a run that reaches the player loop with a window other than 0 and a snapshot
  whose players all have a known team and position, no failure to obtain a player's
  history aborts the computation: the run returns a table, every player of the snapshot
  is processed (the count reported at the end is the number of players), a player whose
  history could not be obtained (nothing, or an empty document) contributes no row and
  the iteration for that player only counts it as processed, while the table holds the
  rows of all the other players.
\<close>

theorem history_failure_excludes_player_only:
  assumes "weeks \<noteq> 0"
    and "get_bootstrap_data w = (Some (Bootstrap_Doc b), w1)"
    and "find_current_gw (events b) = Some cur"
    and "cur \<noteq> 0"
    and "\<forall>p\<in>set (elements b). team p \<in> team_id ` set (teams b) \<and> element_type p \<in> {1, 2, 3, 4}"
    and "\<forall>xs. mset (sort_values xs) = mset xs"
  shows "\<exists>table w'.
           calculate_rolling_averages sort_values w weeks = (Inr table, w')
           \<and> mset table = mset (table_rows weeks cur (teams_dict (teams b)) (elements b)
                                  (fetched_histories w1 (elements b)))
           \<and> Success_Collection_Complete (length (elements b)) (length table) \<in> set (signals w')
           \<and> (\<forall>(p, h)\<in>set (zip (elements b) (fetched_histories w1 (elements b))).
                 \<not> truthy h \<longrightarrow> player_rows weeks cur (teams_dict (teams b)) p h = [])
           \<and> (\<forall>p\<in>set (elements b). \<forall>w0 st.
                 \<not> truthy (fst (get_player_history w0 (player_id p)))
                 \<longrightarrow> process_player weeks cur (teams_dict (teams b)) w0 st p
                       = (Inr (st\<lparr>processed_count := processed_count st + 1\<rparr>),
                          snd (get_player_history w0 (player_id p))))"
proof -
  let ?td = "teams_dict (teams b)"
  let ?init = "\<lparr>results = [], processed_count = 0, successful_count = 0\<rparr>"
  from assms(5) have valid: "\<forall>p\<in>set (elements b). valid_lookups ?td p"
    by (simp add: valid_lookups_iff)
  from process_players_total [OF valid assms(1)] obtain st w2
    where loop: "process_players weeks cur ?td w1 ?init (elements b) = (Inr st, w2)"
    by blast
  let ?rows = "table_rows weeks cur ?td (elements b) (fetched_histories w1 (elements b))"
  from process_players_Inr [OF loop]
  have res: "results st = ?rows"
    and proc: "processed_count st = length (elements b)"
    and succ: "successful_count st = length ?rows"
    by simp_all
  obtain table w' where fin: "finish sort_values weeks cur st w2 = (table, w')"
    by (cases "finish sort_values weeks cur st w2")
  with loop have run: "calculate_rolling_averages sort_values w weeks = (Inr table, w')"
    by (simp add: reached_loop [OF assms(2-4)])
  from fin have "table = (if results st \<noteq> [] then sort_values (results st) else [])"
    by (auto simp: finish_def Let_def)
  with assms(6) have "mset table = mset (results st)"
    by simp
  with res have tab: "mset table = mset ?rows"
    by simp
  then have "length table = length ?rows"
    by (metis size_mset)
  with succ proc fin
  have sig: "Success_Collection_Complete (length (elements b)) (length table) \<in> set (signals w')"
    by (auto simp: finish_def Let_def show_signal_def save_to_cache_def split: if_splits)
  have skip: "\<forall>(p, h)\<in>set (zip (elements b) (fetched_histories w1 (elements b))).
                 \<not> truthy h \<longrightarrow> player_rows weeks cur ?td p h = []"
    by (auto simp: player_rows_no_history)
  have step: "\<forall>p\<in>set (elements b). \<forall>w0 st.
                 \<not> truthy (fst (get_player_history w0 (player_id p)))
                 \<longrightarrow> process_player weeks cur ?td w0 st p
                       = (Inr (st\<lparr>processed_count := processed_count st + 1\<rparr>),
                          snd (get_player_history w0 (player_id p)))"
    using valid process_player_no_history by blast
  from run tab sig skip step show ?thesis
    by blast
qed

lemma example_two_player_world_bootstrap:
  "get_bootstrap_data example_two_player_world
     = (Some (Bootstrap_Doc example_two_players), example_two_player_world)"
  unfolding example_two_player_world_def
  by (rule example_world_cached_bootstrap) (simp add: hours_def)

lemma example_two_player_world_histories:
  "fetched_histories example_two_player_world (elements example_two_players)
     = [None, Some (History_Doc (Some example_games))]"
  by (simp add: example_two_players_def example_bootstrap_def example_player_def
      get_player_history_def player_cache_key_def str_int_def is_cache_valid_def
      load_from_cache_def example_world_def example_two_player_world_def get_cache_file_def
      fetch_player_history_def http_get_def player_url_def hours_def)

theorem history_failure_excludes_player_only_witness:
  "\<exists>table w'.
     calculate_rolling_averages rev example_two_player_world 2 = (Inr table, w')
     \<and> mset table = mset (table_rows 2 5 (teams_dict (teams example_two_players))
                            (elements example_two_players)
                            [None, Some (History_Doc (Some example_games))])
     \<and> Success_Collection_Complete 2 (length table) \<in> set (signals w')"
proof -
  have cur: "find_current_gw (events example_two_players) = Some 5"
    by (simp add: example_two_players_def example_bootstrap_def)
  have valid: "\<forall>p\<in>set (elements example_two_players).
                 team p \<in> team_id ` set (teams example_two_players) \<and> element_type p \<in> {1, 2, 3, 4}"
    by (simp add: example_two_players_def example_bootstrap_def example_player_def)
  have perm: "\<forall>xs :: summary list. mset (rev xs) = mset xs"
    by simp
  have n: "length (elements example_two_players) = 2"
    by (simp add: example_two_players_def example_bootstrap_def)
  from history_failure_excludes_player_only
         [OF _ example_two_player_world_bootstrap cur _ valid perm, of 2]
  show ?thesis
    unfolding example_two_player_world_histories n by simp blast
qed

section \<open>Two runs on a fresh cache\<close>

lemma get_bootstrap_data_hit:
  assumes "cache_hit w ''bootstrap'' 6"
  shows "get_bootstrap_data w = (cached_doc w ''bootstrap'', w)"
  using assms by (simp add: cache_hit_def get_bootstrap_data_def load_from_cache_hit)

lemma get_player_history_hit:
  assumes "cache_hit w (player_cache_key pid) 24"
  shows "get_player_history w pid = (cached_doc w (player_cache_key pid), w)"
  using assms by (simp add: cache_hit_def get_player_history_def load_from_cache_hit)

lemma process_player_hit:
  assumes "cache_hit w (player_cache_key (player_id p)) 24"
    and "cache_hit w' (player_cache_key (player_id p)) 24"
    and "cached_doc w (player_cache_key (player_id p))
           = cached_doc w' (player_cache_key (player_id p))"
  shows "snd (process_player weeks cur tdict w st p) = w"
    and "fst (process_player weeks cur tdict w st p) = fst (process_player weeks cur tdict w' st p)"
proof -
  let ?d = "cached_doc w (player_cache_key (player_id p))"
  have step: "process_player weeks cur tdict v st p
    = (case tdict (team p) of
        None \<Rightarrow> (Inl (KeyError (str_int (team p))), v)
      | Some tname \<Rightarrow>
          (case positions (element_type p) of
             None \<Rightarrow> (Inl (KeyError (str_int (element_type p))), v)
           | Some pos \<Rightarrow>
               (case ?d of
                  None \<Rightarrow> (Inr (st\<lparr>processed_count := processed_count st + 1\<rparr>), v)
                | Some d \<Rightarrow>
                    if \<not> truthy (Some d)
                    then (Inr (st\<lparr>processed_count := processed_count st + 1\<rparr>), v)
                    else (case rolling_summary weeks cur p tname pos d of
                            Inl e \<Rightarrow> (Inl e, v)
                          | Inr None \<Rightarrow> (Inr (st\<lparr>processed_count := processed_count st + 1\<rparr>), v)
                          | Inr (Some r) \<Rightarrow>
                              (Inr (st\<lparr>processed_count := processed_count st + 1,
                                        results := results st @ [r],
                                        successful_count := successful_count st + 1\<rparr>),
                               v)))))"
    if "cache_hit v (player_cache_key (player_id p)) 24"
      and "cached_doc v (player_cache_key (player_id p)) = ?d" for v
    using that
    by (simp add: process_player_def get_player_history_hit Let_def
        split: option.splits sum.splits)
  show "snd (process_player weeks cur tdict w st p) = w"
    unfolding step [OF assms(1) refl]
    by (simp split: option.splits sum.splits)
  show "fst (process_player weeks cur tdict w st p) = fst (process_player weeks cur tdict w' st p)"
    unfolding step [OF assms(1) refl] step [OF assms(2) assms(3) [symmetric]]
    by (simp split: option.splits sum.splits)
qed

lemma process_players_hit:
  assumes "\<forall>p\<in>set ps. cache_hit w (player_cache_key (player_id p)) 24"
    and "\<forall>p\<in>set ps. cache_hit w' (player_cache_key (player_id p)) 24"
    and "\<forall>p\<in>set ps. cached_doc w (player_cache_key (player_id p))
                        = cached_doc w' (player_cache_key (player_id p))"
  shows "snd (process_players weeks cur tdict w st ps) = w
       \<and> fst (process_players weeks cur tdict w st ps) = fst (process_players weeks cur tdict w' st ps)"
  using assms
proof (induction ps arbitrary: st)
  case Nil
  then show ?case by simp
next
  case (Cons p ps)
  obtain r where step: "process_player weeks cur tdict w st p = (r, w)"
    using process_player_hit(1) [of w p w weeks cur tdict st] Cons.prems(1)
    by (cases "process_player weeks cur tdict w st p") simp
  obtain r' where step': "process_player weeks cur tdict w' st p = (r', w')"
    using process_player_hit(1) [of w' p w' weeks cur tdict st] Cons.prems(2)
    by (cases "process_player weeks cur tdict w' st p") simp
  from process_player_hit(2) [of w p w' weeks cur tdict st] Cons.prems step step'
  have same: "r' = r"
    by simp
  show ?case
  proof (cases r)
    case (Inl e)
    with step step' same show ?thesis by simp
  next
    case (Inr st1)
    from Cons.IH [of st1] Cons.prems
    have "snd (process_players weeks cur tdict w st1 ps) = w
       \<and> fst (process_players weeks cur tdict w st1 ps)
           = fst (process_players weeks cur tdict w' st1 ps)"
      by simp
    with Inr step step' same show ?thesis by simp
  qed
qed

lemma fst_finish:
  "fst (finish sort_values weeks cur st w)
     = (if results st \<noteq> [] then sort_values (results st) else [])"
  by (simp add: finish_def Let_def)

lemma finish_frame:
  "clock (snd (finish sort_values weeks cur st w)) = clock w"
  "k \<noteq> get_cache_file (results_key weeks)
     \<Longrightarrow> files (snd (finish sort_values weeks cur st w)) k = files w k"
  by (simp_all add: finish_def Let_def save_to_cache_def show_signal_def)

lemma fresh_run:
  assumes "all_fresh w"
  obtains (no_snapshot) d where "cached_doc w ''bootstrap'' = Some d"
      and "\<forall>b. d \<noteq> Bootstrap_Doc b"
      and "calculate_rolling_averages sort_values w weeks = (Inl (KeyError ''elements''), w)"
  | (inactive) b where "cached_doc w ''bootstrap'' = Some (Bootstrap_Doc b)"
      and "find_current_gw (events b) = None \<or> find_current_gw (events b) = Some 0"
      and "calculate_rolling_averages sort_values w weeks
             = (Inr [], show_signal Warning_No_Current_Gameweek w)"
  | (loop) b cur where "cached_doc w ''bootstrap'' = Some (Bootstrap_Doc b)"
      and "find_current_gw (events b) = Some cur" and "cur \<noteq> 0"
      and "calculate_rolling_averages sort_values w weeks
             = (case process_players weeks cur (teams_dict (teams b)) w
                       \<lparr>results = [], processed_count = 0, successful_count = 0\<rparr> (elements b) of
                  (Inl e, w2) \<Rightarrow> (Inl e, w2)
                | (Inr st, w2) \<Rightarrow>
                    (case finish sort_values weeks cur st w2 of (df, w3) \<Rightarrow> (Inr df, w3)))"
proof -
  from assms have hit: "cache_hit w ''bootstrap'' 6"
    by (simp add: all_fresh_def)
  then have boot: "get_bootstrap_data w = (cached_doc w ''bootstrap'', w)"
    by (rule get_bootstrap_data_hit)
  from hit obtain d where d: "cached_doc w ''bootstrap'' = Some d" and t: "truthy (Some d)"
    by (cases "cached_doc w ''bootstrap''") (auto simp: cache_hit_def)
  show thesis
  proof (cases "\<exists>b. d = Bootstrap_Doc b")
    case False
    with boot d t have "calculate_rolling_averages sort_values w weeks
                          = (Inl (KeyError ''elements''), w)"
      by (cases d) (simp_all add: calculate_rolling_averages_def)
    with d False show thesis
      by (intro no_snapshot [of d]) auto
  next
    case True
    then obtain b where b: "d = Bootstrap_Doc b"
      by blast
    show thesis
    proof (cases "find_current_gw (events b)")
      case None
      with boot d b have "calculate_rolling_averages sort_values w weeks
             = (Inr [], show_signal Warning_No_Current_Gameweek w)"
        by (simp add: calculate_rolling_averages_def)
      with d b None show thesis
        by (intro inactive [of b]) auto
    next
      case (Some cur)
      show thesis
      proof (cases "cur = 0")
        case True
        with Some boot d b have "calculate_rolling_averages sort_values w weeks
             = (Inr [], show_signal Warning_No_Current_Gameweek w)"
          by (simp add: calculate_rolling_averages_def)
        with d b Some True show thesis
          by (intro inactive [of b]) auto
      next
        case False
        from boot d b have "get_bootstrap_data w = (Some (Bootstrap_Doc b), w)"
          by simp
        from reached_loop [OF this Some False, of sort_values weeks] d b Some False
        show thesis
          by (intro loop [of b cur]) auto
      qed
    qed
  qed
qed
lemma fst_fresh_run:
  assumes "cache_hit v ''bootstrap'' 6"
  shows "fst (calculate_rolling_averages sort_values v weeks)
     = (case cached_doc v ''bootstrap'' of
          Some (Bootstrap_Doc b) \<Rightarrow>
            (case find_current_gw (events b) of
               None \<Rightarrow> Inr []
             | Some cur \<Rightarrow>
                 if cur = 0 then Inr []
                 else (case fst (process_players weeks cur (teams_dict (teams b)) v
                                   \<lparr>results = [], processed_count = 0, successful_count = 0\<rparr>
                                   (elements b)) of
                         Inl e \<Rightarrow> Inl e
                       | Inr st \<Rightarrow>
                           Inr (if results st \<noteq> [] then sort_values (results st) else [])))
        | _ \<Rightarrow> Inl (KeyError ''elements''))"
proof -
  from assms have boot: "get_bootstrap_data v = (cached_doc v ''bootstrap'', v)"
    by (rule get_bootstrap_data_hit)
  from assms obtain d where d: "cached_doc v ''bootstrap'' = Some d" and t: "truthy (Some d)"
    by (cases "cached_doc v ''bootstrap''") (auto simp: cache_hit_def)
  show ?thesis
  proof (cases d)
    case (Bootstrap_Doc b)
    show ?thesis
    proof (cases "find_current_gw (events b)")
      case None
      with boot d Bootstrap_Doc show ?thesis
        by (simp add: calculate_rolling_averages_def)
    next
      case (Some cur)
      obtain r w2 where loop: "process_players weeks cur (teams_dict (teams b)) v
                                   \<lparr>results = [], processed_count = 0, successful_count = 0\<rparr>
                                   (elements b) = (r, w2)"
        by (cases "process_players weeks cur (teams_dict (teams b)) v
                                   \<lparr>results = [], processed_count = 0, successful_count = 0\<rparr>
                                   (elements b)")
      show ?thesis
      proof (cases r)
        case (Inl e)
        with boot d Bootstrap_Doc Some loop show ?thesis
          by (simp add: calculate_rolling_averages_def)
      next
        case (Inr st)
        obtain df w3 where fin: "finish sort_values weeks cur st w2 = (df, w3)"
          by (cases "finish sort_values weeks cur st w2")
        with fst_finish [of sort_values weeks cur st w2]
        have "df = (if results st \<noteq> [] then sort_values (results st) else [])"
          by simp
        with boot d Bootstrap_Doc Some loop Inr fin show ?thesis
          by (simp add: calculate_rolling_averages_def)
      qed
    qed
  next
    case Empty_Doc
    with t show ?thesis by simp
  qed (use boot d in \<open>simp_all add: calculate_rolling_averages_def\<close>)
qed

lemma same_cache_same_table:
  assumes "all_fresh w" and "all_fresh w'"
    and "cached_doc w' ''bootstrap'' = cached_doc w ''bootstrap''"
    and "\<forall>b. cached_doc w ''bootstrap'' = Some (Bootstrap_Doc b)
           \<longrightarrow> (\<forall>p\<in>set (elements b). cached_doc w' (player_cache_key (player_id p))
                                         = cached_doc w (player_cache_key (player_id p)))"
  shows "fst (calculate_rolling_averages sort_values w' weeks)
           = fst (calculate_rolling_averages sort_values w weeks)"
proof -
  from assms(1,2) have hit: "cache_hit w ''bootstrap'' 6" "cache_hit w' ''bootstrap'' 6"
    by (simp_all add: all_fresh_def)
  have loops: "fst (process_players weeks cur (teams_dict (teams b)) w' st (elements b))
                 = fst (process_players weeks cur (teams_dict (teams b)) w st (elements b))"
    if b: "cached_doc w ''bootstrap'' = Some (Bootstrap_Doc b)" for b cur st
  proof -
    from b assms(1) have 1: "\<forall>p\<in>set (elements b). cache_hit w (player_cache_key (player_id p)) 24"
      by (simp add: all_fresh_def)
    from b assms(2,3) have 2: "\<forall>p\<in>set (elements b). cache_hit w' (player_cache_key (player_id p)) 24"
      by (simp add: all_fresh_def)
    from b assms(4) have 3: "\<forall>p\<in>set (elements b). cached_doc w' (player_cache_key (player_id p))
                                         = cached_doc w (player_cache_key (player_id p))"
      by simp
    from process_players_hit [OF 2 1 3] show ?thesis
      by simp
  qed
  show ?thesis
    unfolding fst_fresh_run [OF hit(1)] fst_fresh_run [OF hit(2)] assms(3)
    by (simp add: loops split: option.splits document.splits)
qed

lemma fresh_run_frame:
  assumes "all_fresh w"
  shows "clock (snd (calculate_rolling_averages sort_values w weeks)) = clock w"
    and "k \<noteq> get_cache_file (results_key weeks)
           \<Longrightarrow> files (snd (calculate_rolling_averages sort_values w weeks)) k = files w k"
proof -
  let ?run = "calculate_rolling_averages sort_values w weeks"
  have "clock (snd ?run) = clock w
        \<and> (k \<noteq> get_cache_file (results_key weeks) \<longrightarrow> files (snd ?run) k = files w k)"
    using assms
  proof (cases rule: fresh_run [where sort_values = sort_values and weeks = weeks])
    case (no_snapshot d)
    then show ?thesis by simp
  next
    case (inactive b)
    then show ?thesis by (simp add: show_signal_def)
  next
    case (loop b cur)
    let ?loop = "process_players weeks cur (teams_dict (teams b)) w
                       \<lparr>results = [], processed_count = 0, successful_count = 0\<rparr> (elements b)"
    from loop(1) assms
    have hits: "\<forall>p\<in>set (elements b). cache_hit w (player_cache_key (player_id p)) 24"
      by (simp add: all_fresh_def)
    from process_players_hit [OF hits hits] have "snd ?loop = w"
      by simp
    then obtain r where r: "?loop = (r, w)"
      by (cases ?loop) simp
    show ?thesis
    proof (cases r)
      case (Inl e)
      with loop(4) r show ?thesis by simp
    next
      case (Inr st)
      with loop(4) r have "snd ?run = snd (finish sort_values weeks cur st w)"
        by (simp split: prod.splits)
      then show ?thesis
        by (simp add: finish_frame)
    qed
  qed
  then show "clock (snd ?run) = clock w"
    and "k \<noteq> get_cache_file (results_key weeks) \<Longrightarrow> files (snd ?run) k = files w k"
    by simp_all
qed

lemma cached_doc_after_fresh_run:
  assumes "all_fresh w"
  shows "cached_doc (snd (calculate_rolling_averages sort_values w weeks)) ''bootstrap''
           = cached_doc w ''bootstrap''"
    and "cached_doc (snd (calculate_rolling_averages sort_values w weeks)) (player_cache_key pid)
           = cached_doc w (player_cache_key pid)"
  using fresh_run_frame(2) [OF assms] results_path_distinct
  by (simp_all add: cached_doc_def)

lemma all_fresh_after_fresh_run:
  assumes "all_fresh w"
  shows "all_fresh (snd (calculate_rolling_averages sort_values w weeks))"
proof -
  let ?w1 = "snd (calculate_rolling_averages sort_values w weeks)"
  have valid: "is_cache_valid ?w1 ''bootstrap'' h = is_cache_valid w ''bootstrap'' h"
    "is_cache_valid ?w1 (player_cache_key pid) h = is_cache_valid w (player_cache_key pid) h"
    for h pid
    using fresh_run_frame [OF assms] results_path_distinct
    by (simp_all add: is_cache_valid_def split: option.splits)
  with assms show ?thesis
    by (simp add: all_fresh_def cache_hit_def cached_doc_after_fresh_run [OF assms])
qed

lemma cached_doc_clock [simp]: "cached_doc (w\<lparr>clock := t\<rparr>) k = cached_doc w k"
  by (simp add: cached_doc_def)

text \<open>
  C8. Let every cache entry that the computation reads (the bootstrap snapshot and the
  history of each of its players) be present and fresh. Then the first run makes no request
  and leaves these entries as they are, so the second run, started in the world the first
  one left, returns the same result; it still does at any later time at which the entries
  are fresh.
\<close>

theorem second_run_identical:
  assumes "all_fresh w"
  shows "fst (calculate_rolling_averages sort_values
                (snd (calculate_rolling_averages sort_values w weeks)) weeks)
           = fst (calculate_rolling_averages sort_values w weeks)
       \<and> requests (snd (calculate_rolling_averages sort_values w weeks)) = requests w
       \<and> (\<forall>t. all_fresh ((snd (calculate_rolling_averages sort_values w weeks))\<lparr>clock := t\<rparr>)
              \<longrightarrow> fst (calculate_rolling_averages sort_values
                         ((snd (calculate_rolling_averages sort_values w weeks))\<lparr>clock := t\<rparr>) weeks)
                    = fst (calculate_rolling_averages sort_values w weeks))"
proof (intro conjI allI impI)
  let ?w1 = "snd (calculate_rolling_averages sort_values w weeks)"
  show "fst (calculate_rolling_averages sort_values ?w1 weeks)
          = fst (calculate_rolling_averages sort_values w weeks)"
    by (rule same_cache_same_table [OF assms all_fresh_after_fresh_run [OF assms]])
      (simp_all add: cached_doc_after_fresh_run [OF assms])
  show "requests ?w1 = requests w"
    using assms
  proof (cases rule: fresh_run [where sort_values = sort_values and weeks = weeks])
    case (no_snapshot d)
    then show ?thesis by simp
  next
    case (inactive b)
    then show ?thesis by (simp add: show_signal_def)
  next
    case (loop b cur)
    let ?loop = "process_players weeks cur (teams_dict (teams b)) w
                       \<lparr>results = [], processed_count = 0, successful_count = 0\<rparr> (elements b)"
    from loop(1) assms
    have hits: "\<forall>p\<in>set (elements b). cache_hit w (player_cache_key (player_id p)) 24"
      by (simp add: all_fresh_def)
    from process_players_hit [OF hits hits] have "snd ?loop = w"
      by simp
    then obtain r where r: "?loop = (r, w)"
      by (cases ?loop) simp
    show ?thesis
    proof (cases r)
      case (Inl e)
      with loop(4) r show ?thesis by simp
    next
      case (Inr st)
      with loop(4) r have "?w1 = snd (finish sort_values weeks cur st w)"
        by (simp split: prod.splits)
      then show ?thesis
        by (simp add: finish_def Let_def save_to_cache_def show_signal_def)
    qed
  qed
  fix t
  assume later: "all_fresh (?w1\<lparr>clock := t\<rparr>)"
  show "fst (calculate_rolling_averages sort_values (?w1\<lparr>clock := t\<rparr>) weeks)
          = fst (calculate_rolling_averages sort_values w weeks)"
    by (rule same_cache_same_table [OF assms later])
      (simp_all add: cached_doc_after_fresh_run [OF assms])
qed

lemma example_history_world_fresh: "all_fresh (example_history_world games)"
  by (simp add: all_fresh_def cache_hit_def cached_doc_def is_cache_valid_def
      example_history_world_def example_world_def get_cache_file_def player_cache_key_def
      str_int_def hours_def example_bootstrap_def example_player_def)

theorem second_run_identical_witness:
  "fst (calculate_rolling_averages rev
          (snd (calculate_rolling_averages rev (example_history_world example_games) 2)) 2)
     = Inr [example_row 3 97 (float_literal (3 / 2)) (float_literal (278 / 100))]
   \<and> requests (snd (calculate_rolling_averages rev (example_history_world example_games) 2)) = []"
proof -
  have "requests (example_history_world example_games) = []"
    by (simp add: example_history_world_def example_world_def)
  with second_run_identical [OF example_history_world_fresh, of rev example_games 2]
  show ?thesis
    by (simp add: example_run_four_games)
qed

end
